theory Spec2Isabelle
  imports Complex_Main
begin

section \<open>The page state read and written by index.js\<close>

text \<open>
  The script owns no data: it reads the DOM on demand and writes classes and attributes
  back to it. The document is modelled as a store of elements in document order; an
  element is addressed by its position in the store and names its parent by position.
  Lengths in CSS pixels are JavaScript numbers; they are modelled as real numbers.
\<close>

record element =
  tag :: string
  elem_id :: string
  parent :: "nat option"
  classList :: "string list"
  attributes :: "string \<rightharpoonup> string"
  textContent :: string
  disabled :: bool
  rect_top :: real
  rect_bottom :: real

text \<open>The JavaScript values that reach \<open>validateHref\<close> and the console.\<close>

datatype jsval = JNull | JString string | JBool bool

fun truthy :: "jsval \<Rightarrow> bool" where
  "truthy JNull = False"
| "truthy (JString s) = (s \<noteq> [])"
| "truthy (JBool b) = b"

text \<open>Everything a handler emits besides DOM writes, in the order it is emitted.\<close>

datatype effect =
    ConsoleLog string
  | ConsoleWarn string "jsval list"
  | ConsoleError string
  | PreventDefault
  | ScrollIntoView nat string string string
  | PushState string
  | Focus nat
  | Gtag string string string

datatype event_target = Window | Document

datatype function_name =
    HandleNavbarScroll
  | UpdateActiveNavLink
  | HandleWindowResize
  | HandleDocumentClick
  | HandleKeyboardNavigation
  | ResetScrollPosition
  | PopstateArrow

datatype handler =
    Direct function_name
  | Throttled function_name nat
  | Debounced function_name nat

datatype timer_callback = ScrollToLocationHash | RestoreButton nat string

record page =
  elements :: "element list"
  innerHeight :: real
  clientHeight :: real
  scrollY :: real
  pathname :: string
  search :: string
  hash :: string
  hostname :: string
  has_pushState :: bool
  gtag_defined :: bool
  vh_property :: "real option"
  listeners :: "(event_target \<times> string \<times> handler) list"
  timeouts :: "(timer_callback \<times> nat) list"
  effects :: "effect list"

subsection \<open>DOM lookups\<close>

text \<open>\<open>document.getElementById\<close>: the first element in document order carrying the id;
  the empty string names no element.\<close>

fun first_index :: "('a \<Rightarrow> bool) \<Rightarrow> 'a list \<Rightarrow> nat \<Rightarrow> nat option" where
  "first_index P [] n = None"
| "first_index P (x # xs) n = (if P x then Some n else first_index P xs (Suc n))"

definition getElementById :: "page \<Rightarrow> string \<Rightarrow> nat option" where
  "getElementById p i =
     (if i = [] then None else first_index (\<lambda>e. elem_id e = i) (elements p) 0)"

definition getAttribute :: "element \<Rightarrow> string \<Rightarrow> string option" where
  "getAttribute e a = attributes e a"

definition setAttribute :: "string \<Rightarrow> string \<Rightarrow> element \<Rightarrow> element" where
  "setAttribute a v e = e\<lparr>attributes := (attributes e)(a \<mapsto> v)\<rparr>"

text \<open>\<open>classList.toggle(token, force)\<close>: with \<open>force\<close> true the token is added unless
  present, with \<open>force\<close> false it is removed.\<close>

definition classList_toggle :: "string \<Rightarrow> bool \<Rightarrow> element \<Rightarrow> element" where
  "classList_toggle c force e =
     (if force then (if c \<in> set (classList e) then e else e\<lparr>classList := classList e @ [c]\<rparr>)
      else e\<lparr>classList := removeAll c (classList e)\<rparr>)"

section \<open>Visibility of an element in the viewport\<close>

text \<open>\<open>window.innerHeight || document.documentElement.clientHeight\<close>: the second operand
  is taken when the first is zero.\<close>

definition windowHeight :: "page \<Rightarrow> real" where
  "windowHeight p = (if innerHeight p \<noteq> 0 then innerHeight p else clientHeight p)"

text \<open>\<open>isElementVisible(element, threshold)\<close>; the element is \<open>None\<close> for \<open>null\<close>.\<close>

definition isElementVisible :: "page \<Rightarrow> nat option \<Rightarrow> real \<Rightarrow> bool" where
  "isElementVisible p element threshold =
     (case element of
        None \<Rightarrow> False
      | Some i \<Rightarrow>
          rect_top (elements p ! i) \<le> windowHeight p * (1 - threshold) \<and>
          rect_bottom (elements p ! i) \<ge> windowHeight p * threshold)"


section \<open>Active section detection\<close>

definition sections :: "string list" where
  "sections = [''homepage'', ''performance'', ''report'']"

definition section_visible :: "page \<Rightarrow> string \<Rightarrow> bool" where
  "section_visible p sectionId =
     (let section = getElementById p sectionId
      in section \<noteq> None \<and> isElementVisible p section 0.3)"

text \<open>The \<open>for ... of\<close> loop with its \<open>break\<close>; the value of \<open>activeSection\<close> after it.\<close>

fun active_loop :: "page \<Rightarrow> string list \<Rightarrow> string" where
  "active_loop p [] = []"
| "active_loop p (sectionId # rest) =
     (if section_visible p sectionId then sectionId else active_loop p rest)"

definition activeSection :: "page \<Rightarrow> string" where
  "activeSection p = active_loop p sections"

subsection \<open>Selectors\<close>

text \<open>The chain of ancestors of an element, nearest first. In document order a parent
  precedes its children, so the walk follows a parent link only to a smaller position.\<close>

function ancestors :: "element list \<Rightarrow> nat \<Rightarrow> nat list" where
  "ancestors els i =
     (if i < length els
      then (case parent (els ! i) of
              None \<Rightarrow> []
            | Some a \<Rightarrow> if a < i then a # ancestors els a else [])
      else [])"
  by pat_completeness auto
termination
  by (relation "measure (\<lambda>(els, i). i)") auto

declare ancestors.simps [simp del]

text \<open>The selector \<open>nav a.smooth-scroll\<close>: an anchor of class \<open>smooth-scroll\<close> below a
  \<open>nav\<close> element.\<close>

definition is_smooth_anchor :: "element \<Rightarrow> bool" where
  "is_smooth_anchor e \<longleftrightarrow> tag e = ''a'' \<and> ''smooth-scroll'' \<in> set (classList e)"

definition matches_nav_smooth :: "element list \<Rightarrow> nat \<Rightarrow> bool" where
  "matches_nav_smooth els i \<longleftrightarrow>
     is_smooth_anchor (els ! i) \<and> (\<exists>a \<in> set (ancestors els i). tag (els ! a) = ''nav'')"

definition querySelectorAll_nav_links :: "page \<Rightarrow> nat list" where
  "querySelectorAll_nav_links p =
     filter (matches_nav_smooth (elements p)) [0 ..< length (elements p)]"

section \<open>Highlighting the active navigation link\<close>

text \<open>The body of the \<open>forEach\<close> callback, for the link at position \<open>i\<close>.\<close>

definition mark_link :: "string \<Rightarrow> element \<Rightarrow> element" where
  "mark_link active link =
     (let href = getAttribute link ''href'';
          isActive = (href = Some (CHR ''#'' # active))
      in setAttribute ''aria-current'' (if isActive then ''page'' else ''false'')
           (classList_toggle ''active'' isActive link))"

definition set_link_active :: "string \<Rightarrow> nat \<Rightarrow> page \<Rightarrow> page" where
  "set_link_active active i p =
     p\<lparr>elements := (elements p)[i := mark_link active (elements p ! i)]\<rparr>"

definition updateActiveNavLink :: "page \<Rightarrow> page" where
  "updateActiveNavLink p =
     (let navLinks = querySelectorAll_nav_links p;
          active = activeSection p
      in fold (set_link_active active) navLinks p)"

section \<open>Smooth scrolling and the URL\<close>

text \<open>The options argument of \<open>scrollToElement\<close>; a field left out is \<open>None\<close>. The
  object spread lets a given field override the default.\<close>

record scroll_options =
  behavior :: "string option"
  block :: "string option"
  inline_opt :: "string option"

definition no_options :: scroll_options where
  "no_options = \<lparr>behavior = None, block = None, inline_opt = None\<rparr>"

definition or_default :: "string option \<Rightarrow> string \<Rightarrow> string" where
  "or_default v d = (case v of None \<Rightarrow> d | Some x \<Rightarrow> x)"

definition emit :: "effect \<Rightarrow> page \<Rightarrow> page" where
  "emit x p = p\<lparr>effects := effects p @ [x]\<rparr>"

text \<open>\<open>history.pushState(null, '', url)\<close> with a path-absolute reference: the entry is
  recorded and the location takes the components of the reference, cut at the first
  \<open>#\<close> and, before it, at the first \<open>?\<close>. An empty query or fragment reads back as
  the empty string. Percent-encoding is not modelled.\<close>

definition url_fragment :: "string \<Rightarrow> string" where
  "url_fragment url = dropWhile (\<lambda>c. c \<noteq> CHR ''#'') url"

definition url_query :: "string \<Rightarrow> string" where
  "url_query url =
     dropWhile (\<lambda>c. c \<noteq> CHR ''?'') (takeWhile (\<lambda>c. c \<noteq> CHR ''#'') url)"

definition url_path :: "string \<Rightarrow> string" where
  "url_path url =
     takeWhile (\<lambda>c. c \<noteq> CHR ''?'') (takeWhile (\<lambda>c. c \<noteq> CHR ''#'') url)"

definition pushState :: "string \<Rightarrow> page \<Rightarrow> page" where
  "pushState url p =
     (emit (PushState url) p)
       \<lparr>pathname := url_path url,
        search := (if url_query url = ''?'' then [] else url_query url),
        hash := (if url_fragment url = ''#'' then [] else url_fragment url)\<rparr>"

definition scrollToElement :: "string \<Rightarrow> scroll_options \<Rightarrow> page \<Rightarrow> bool \<times> page" where
  "scrollToElement targetId options p =
     (case getElementById p targetId of
        Some section \<Rightarrow>
          (let p1 = emit (ScrollIntoView section
                       (or_default (behavior options) ''smooth'')
                       (or_default (block options) ''start'')
                       (or_default (inline_opt options) ''nearest'')) p;
               p2 = (if has_pushState p1
                     then pushState (pathname p1 @ search p1 @ ''#'' @ targetId) p1
                     else p1);
               p3 = emit (Focus section) p2
           in (True, p3))
      | None \<Rightarrow>
          (False,
           emit (ConsoleWarn (''[Airbus Site] Element with ID '' @ [CHR 0x27] @ targetId @
                              [CHR 0x27] @ '' not found'') []) p))"


section \<open>Validation of a link target\<close>

text \<open>Regular expressions as far as the script uses them, matched by derivatives. A
  character class is a list of inclusive ranges.\<close>

datatype regex =
    Zero
  | One
  | Chr char
  | Cls "(char \<times> char) list"
  | Alt regex regex
  | Seq regex regex
  | Star regex

definition in_class :: "(char \<times> char) list \<Rightarrow> char \<Rightarrow> bool" where
  "in_class rs c \<longleftrightarrow>
     (\<exists>(lo, hi) \<in> set rs. (of_char lo :: nat) \<le> of_char c \<and> (of_char c :: nat) \<le> of_char hi)"

fun nullable :: "regex \<Rightarrow> bool" where
  "nullable Zero = False"
| "nullable One = True"
| "nullable (Chr c) = False"
| "nullable (Cls rs) = False"
| "nullable (Alt r s) = (nullable r \<or> nullable s)"
| "nullable (Seq r s) = (nullable r \<and> nullable s)"
| "nullable (Star r) = True"

fun deriv :: "char \<Rightarrow> regex \<Rightarrow> regex" where
  "deriv c Zero = Zero"
| "deriv c One = Zero"
| "deriv c (Chr d) = (if c = d then One else Zero)"
| "deriv c (Cls rs) = (if in_class rs c then One else Zero)"
| "deriv c (Alt r s) = Alt (deriv c r) (deriv c s)"
| "deriv c (Seq r s) =
     (if nullable r then Alt (Seq (deriv c r) s) (deriv c s) else Seq (deriv c r) s)"
| "deriv c (Star r) = Seq (deriv c r) (Star r)"

text \<open>\<open>/^r$/.test(s)\<close> without flags: the whole string has to match \<open>r\<close>.\<close>

definition regex_test :: "regex \<Rightarrow> string \<Rightarrow> bool" where
  "regex_test r s = nullable (fold deriv s r)"

text \<open>The strings a regular expression denotes.\<close>

inductive_set star :: "string set \<Rightarrow> string set" for A :: "string set" where
  star_empty: "[] \<in> star A"
| star_step: "u \<in> A \<Longrightarrow> v \<in> star A \<Longrightarrow> u @ v \<in> star A"

fun lang :: "regex \<Rightarrow> string set" where
  "lang Zero = {}"
| "lang One = {[]}"
| "lang (Chr c) = {[c]}"
| "lang (Cls rs) = {[c] | c. in_class rs c}"
| "lang (Alt r s) = lang r \<union> lang s"
| "lang (Seq r s) = {u @ v | u v. u \<in> lang r \<and> v \<in> lang s}"
| "lang (Star r) = star (lang r)"

definition letter_ranges :: "(char \<times> char) list" where
  "letter_ranges = [(CHR ''a'', CHR ''z''), (CHR ''A'', CHR ''Z'')]"

text \<open>\<open>[\w-]\<close>: a letter, a digit, the underscore or the hyphen.\<close>

definition word_hyphen_ranges :: "(char \<times> char) list" where
  "word_hyphen_ranges =
     [(CHR ''a'', CHR ''z''), (CHR ''A'', CHR ''Z''), (CHR ''0'', CHR ''9''),
      (CHR ''_'', CHR ''_''), (CHR ''-'', CHR ''-'')]"

definition href_regex :: regex where
  "href_regex = Seq (Chr CHR ''#'') (Seq (Cls letter_ranges) (Star (Cls word_hyphen_ranges)))"

text \<open>The wording of the specification: an ASCII letter, a word character.\<close>

definition ascii_letter :: "char \<Rightarrow> bool" where
  "ascii_letter c \<longleftrightarrow> c \<in> set ''abcdefghijklmnopqrstuvwxyzABCDEFGHIJKLMNOPQRSTUVWXYZ''"

definition word_char :: "char \<Rightarrow> bool" where
  "word_char c \<longleftrightarrow> ascii_letter c \<or> c \<in> set ''0123456789'' \<or> c = CHR ''_''"

definition of_attribute :: "string option \<Rightarrow> jsval" where
  "of_attribute a = (case a of None \<Rightarrow> JNull | Some s \<Rightarrow> JString s)"

text \<open>The chain of \<open>&&\<close> yields its first falsy operand, or its last operand.\<close>

definition validateHref :: "jsval \<Rightarrow> jsval" where
  "validateHref href =
     (if \<not> truthy href then href
      else (case href of
              JString s \<Rightarrow>
                if \<not> (take 1 s = ''#'') then JBool False
                else if \<not> (length s > 1) then JBool False
                else JBool (regex_test href_regex s)
            | _ \<Rightarrow> JBool False))"

section \<open>Analytics and click handling\<close>

definition trackEvent :: "string \<Rightarrow> string \<Rightarrow> string \<Rightarrow> page \<Rightarrow> page" where
  "trackEvent action category label p =
     (let p1 = (if gtag_defined p then emit (Gtag action category label) p else p)
      in if hostname p1 = ''localhost'' \<or> hostname p1 = ''127.0.0.1''
         then emit (ConsoleLog (''[Analytics] '' @ action @ '' | '' @ category @ '' | '' @ label)) p1
         else p1)"

text \<open>\<open>element.closest(selector)\<close>: the element itself or its nearest ancestor that
  matches.\<close>

definition closest :: "page \<Rightarrow> nat \<Rightarrow> (element \<Rightarrow> bool) \<Rightarrow> nat option" where
  "closest p i sel = find (\<lambda>j. sel (elements p ! j)) (i # ancestors (elements p) i)"

text \<open>\<open>element.querySelector(selector)\<close>: the first descendant in document order that
  matches.\<close>

definition querySelector_within :: "page \<Rightarrow> nat \<Rightarrow> (element \<Rightarrow> bool) \<Rightarrow> nat option" where
  "querySelector_within p i sel =
     find (\<lambda>j. i \<in> set (ancestors (elements p) j) \<and> sel (elements p ! j))
       [0 ..< length (elements p)]"

definition update_element :: "nat \<Rightarrow> (element \<Rightarrow> element) \<Rightarrow> page \<Rightarrow> page" where
  "update_element i f p = p\<lparr>elements := (elements p)[i := f (elements p ! i)]\<rparr>"

text \<open>The feedback text starts with the arrow U+2B07, here in UTF-8. The text of the
  enclosing link is not recomputed after the button's text is replaced.\<close>

definition download_started :: string where
  "download_started = [CHR 0xE2, CHR 0xAC, CHR 0x87] @ '' Download avviato...''"

definition showDownloadFeedback :: "nat \<Rightarrow> page \<Rightarrow> page" where
  "showDownloadFeedback element p =
     (let originalText = textContent (elements p ! element)
      in case querySelector_within p element (\<lambda>e. tag e = ''button'') of
           Some button \<Rightarrow>
             (update_element button
                (\<lambda>b. b\<lparr>textContent := download_started, disabled := True\<rparr>) p)
               \<lparr>timeouts := timeouts p @ [(RestoreButton button originalText, 2000)]\<rparr>
         | None \<Rightarrow> p)"

definition handleDocumentClick :: "nat \<Rightarrow> page \<Rightarrow> page" where
  "handleDocumentClick target p =
     (let button = closest p target (\<lambda>e. elem_id e = ''goToReport'');
          smoothLink = closest p target is_smooth_anchor;
          downloadLink = closest p target
                           (\<lambda>e. tag e = ''a'' \<and> getAttribute e ''download'' \<noteq> None)
      in case button of
           Some b \<Rightarrow>
             (let p1 = emit PreventDefault p;
                  (ok, p2) = scrollToElement ''report'' no_options p1
              in if ok then trackEvent ''button_click'' ''go_to_report'' ''homepage'' p2 else p2)
         | None \<Rightarrow>
             (case smoothLink of
                Some l \<Rightarrow>
                  (let p1 = emit PreventDefault p;
                       href = of_attribute (getAttribute (elements p1 ! l) ''href'')
                   in if truthy (validateHref href)
                      then (let targetId = (case href of JString s \<Rightarrow> drop 1 s | _ \<Rightarrow> []);
                                (ok, p2) = scrollToElement targetId no_options p1
                            in if ok then trackEvent ''navigation'' ''smooth_scroll'' targetId p2
                               else p2)
                      else emit (ConsoleWarn ''[Airbus Site] Invalid href format for smooth scroll:''
                                   [href]) p1)
              | None \<Rightarrow>
                  (case downloadLink of
                     Some d \<Rightarrow>
                       (let filename = (case getAttribute (elements p ! d) ''download'' of
                                          Some a \<Rightarrow> if a \<noteq> [] then a else ''document''
                                        | None \<Rightarrow> ''document'');
                            p1 = trackEvent ''download'' ''report_pdf'' filename p
                        in showDownloadFeedback d p1)
                   | None \<Rightarrow> p)))"

section \<open>Navigation bar, resize and start-up\<close>

datatype selector = ById string | ByTag string

fun matches :: "selector \<Rightarrow> element \<Rightarrow> bool" where
  "matches (ById i) e = (elem_id e = i)"
| "matches (ByTag t) e = (tag e = t)"

definition querySelector :: "page \<Rightarrow> selector \<Rightarrow> nat option" where
  "querySelector p sel = first_index (matches sel) (elements p) 0"

definition querySelectorAll :: "page \<Rightarrow> selector \<Rightarrow> nat list" where
  "querySelectorAll p sel =
     filter (\<lambda>i. matches sel (elements p ! i)) [0 ..< length (elements p)]"

definition handleNavbarScroll :: "page \<Rightarrow> page" where
  "handleNavbarScroll p =
     (let scrollThreshold = 80
      in case querySelector p (ByTag ''nav'') of
           Some nav \<Rightarrow>
             (let isScrolled = (scrollY p > scrollThreshold)
              in update_element nav
                   (\<lambda>e. setAttribute ''aria-label''
                      (if isScrolled then ''Menu di navigazione principale (sfondo visibile)''
                       else ''Menu di navigazione principale (trasparente)'')
                      (classList_toggle ''scrolled'' isScrolled e)) p)
         | None \<Rightarrow> p)"

text \<open>The custom property \<open>--vh\<close> holds a length in pixels; its number is kept.\<close>

definition handleWindowResize :: "page \<Rightarrow> page" where
  "handleWindowResize p =
     (let vh = innerHeight p * 0.01
      in updateActiveNavLink (p\<lparr>vh_property := Some vh\<rparr>))"

definition criticalElements :: "(selector \<times> string) list" where
  "criticalElements =
     [(ById ''homepage'', ''Homepage section''),
      (ById ''performance'', ''Performance section''),
      (ById ''report'', ''Report section''),
      (ByTag ''nav'', ''Navigation bar'')]"

fun join :: "string \<Rightarrow> string list \<Rightarrow> string" where
  "join sep [] = []"
| "join sep [x] = x"
| "join sep (x # y # ys) = x @ sep @ join sep (y # ys)"

definition validateCriticalElements :: "page \<Rightarrow> bool \<times> page" where
  "validateCriticalElements p =
     (let missing = filter (\<lambda>(sel, name). querySelector p sel = None) criticalElements;
          p1 = (if length missing > 0
                then emit (ConsoleWarn ''[Airbus Site] Missing critical elements:''
                             [JString (join '', '' (map snd missing))]) p
                else p)
      in (length missing = 0, p1))"

text \<open>Decimal digits of an array index, for the template literal.\<close>

function show_nat :: "nat \<Rightarrow> string" where
  "show_nat n =
     (if n < 10 then [char_of (48 + n)]
      else show_nat (n div 10) @ [char_of (48 + n mod 10)])"
  by pat_completeness auto
termination
  by (relation "measure id") auto

declare show_nat.simps [simp del]

definition falsy_attribute :: "string option \<Rightarrow> bool" where
  "falsy_attribute a = (\<not> truthy (of_attribute a))"

definition is_heading :: "element \<Rightarrow> bool" where
  "is_heading e \<longleftrightarrow> tag e = ''h2'' \<or> tag e = ''h3'' \<or> tag e = ''h4''"

text \<open>The callback of \<open>sections.forEach\<close>, given the position \<open>index\<close> in the node
  list and the section.\<close>

definition label_section :: "nat \<times> nat \<Rightarrow> page \<Rightarrow> page" where
  "label_section ix p =
     (let index = fst ix; section = snd ix
      in if falsy_attribute (getAttribute (elements p ! section) ''aria-labelledby'') \<and>
            falsy_attribute (getAttribute (elements p ! section) ''aria-label'')
         then (case querySelector_within p section is_heading of
                 Some heading \<Rightarrow>
                   (let headingId = (if elem_id (elements p ! heading) \<noteq> []
                                     then elem_id (elements p ! heading)
                                     else ''section-heading-'' @ show_nat index);
                        p1 = update_element heading (\<lambda>h. h\<lparr>elem_id := headingId\<rparr>) p
                    in update_element section (setAttribute ''aria-labelledby'' headingId) p1)
               | None \<Rightarrow> p)
         else p)"

definition setupAccessibility :: "page \<Rightarrow> page" where
  "setupAccessibility p =
     (let p1 = (case querySelector p (ByTag ''main'') of
                  Some main \<Rightarrow>
                    if falsy_attribute (getAttribute (elements p ! main) ''role'')
                    then update_element main (setAttribute ''role'' ''main'') p
                    else p
                | None \<Rightarrow> p);
          sections = querySelectorAll p1 (ByTag ''section'')
      in fold label_section (zip [0 ..< length sections] sections) p1)"

definition addEventListener :: "event_target \<Rightarrow> string \<Rightarrow> handler \<Rightarrow> page \<Rightarrow> page" where
  "addEventListener t ev h p = p\<lparr>listeners := listeners p @ [(t, ev, h)]\<rparr>"

definition setTimeout :: "timer_callback \<Rightarrow> nat \<Rightarrow> page \<Rightarrow> page" where
  "setTimeout cb ms p = p\<lparr>timeouts := timeouts p @ [(cb, ms)]\<rparr>"

definition initializeSite :: "page \<Rightarrow> page" where
  "initializeSite p =
     (let p0 = emit (ConsoleLog ''[Airbus Site] Initializing...'') p;
          (ok, p00) = validateCriticalElements p0;
          p000 = (if \<not> ok
                  then emit (ConsoleError
                         ''[Airbus Site] Critical elements missing, some features may not work'')
                         p00
                  else p00);
          p1 = setupAccessibility p000;
          p2 = handleWindowResize p1;
          p3 = addEventListener Window ''scroll'' (Throttled HandleNavbarScroll 16) p2;
          p4 = addEventListener Window ''scroll'' (Throttled UpdateActiveNavLink 100) p3;
          p5 = addEventListener Window ''resize'' (Debounced HandleWindowResize 250) p4;
          p6 = addEventListener Document ''click'' (Direct HandleDocumentClick) p5;
          p7 = addEventListener Document ''keydown'' (Direct HandleKeyboardNavigation) p6;
          p8 = addEventListener Window ''beforeunload'' (Direct ResetScrollPosition) p7;
          p9 = addEventListener Window ''popstate'' (Direct PopstateArrow) p8;
          p10 = handleNavbarScroll p9;
          p11 = updateActiveNavLink p10;
          p12 = (if hash p11 \<noteq> [] then setTimeout ScrollToLocationHash 300 p11 else p11)
      in emit (ConsoleLog ''[Airbus Site] Initialization complete'') p12)"

text \<open>Two pages that show the same document in the same viewport at the same scroll
  position.\<close>

definition same_dom :: "page \<Rightarrow> page \<Rightarrow> bool" where
  "same_dom p q \<longleftrightarrow>
     elements p = elements q \<and> innerHeight p = innerHeight q \<and>
     clientHeight p = clientHeight q \<and> scrollY p = scrollY q"

section \<open>Throttle and debounce\<close>

text \<open>
  A wrapper returned by \<open>throttle\<close> or \<open>debounce\<close> owns one variable, \<open>timeout\<close>, and
  talks to the browser's timer table. The table holds, for each pending timer, its
  handle, the time it becomes due and the arguments its callback \<open>later\<close> has captured.
  Time is counted in milliseconds, and a timer set with a delay is due that many
  milliseconds later; the wrap-around of delays that do not fit 31 bits is not
  modelled. The log records each call of the wrapper and each call of the wrapped
  function, with the clock at that moment.
\<close>

datatype 'a log_entry = Called nat 'a | Invoked nat 'a

record ('a, 'u) timer_env =
  now :: nat
  next_handle :: nat
  pending :: "(nat \<times> nat \<times> 'a) list"
  timeout_var :: "nat option"
  user :: 'u
  history :: "'a log_entry list"

definition clearTimeout :: "nat option \<Rightarrow> ('a, 'u) timer_env \<Rightarrow> ('a, 'u) timer_env" where
  "clearTimeout h env =
     (case h of
        None \<Rightarrow> env
      | Some k \<Rightarrow> env\<lparr>pending := filter (\<lambda>(k', due, args). k' \<noteq> k) (pending env)\<rparr>)"

definition set_timer :: "'a \<Rightarrow> nat \<Rightarrow> ('a, 'u) timer_env \<Rightarrow> nat \<times> ('a, 'u) timer_env" where
  "set_timer args wait env =
     (next_handle env,
      env\<lparr>pending := pending env @ [(next_handle env, now env + wait, args)],
          next_handle := Suc (next_handle env)\<rparr>)"

text \<open>The call \<open>func(...args)\<close>, entered in the log.\<close>

definition invoke :: "('a \<Rightarrow> 'u \<Rightarrow> 'u) \<Rightarrow> 'a \<Rightarrow> ('a, 'u) timer_env \<Rightarrow> ('a, 'u) timer_env" where
  "invoke func args env =
     env\<lparr>user := func args (user env), history := history env @ [Invoked (now env) args]\<rparr>"

text \<open>\<open>throttle(func, wait)\<close>: the closure \<open>later\<close> and the returned
  \<open>executedFunction\<close>.\<close>

definition throttle_later ::
  "('a \<Rightarrow> 'u \<Rightarrow> 'u) \<Rightarrow> 'a \<Rightarrow> ('a, 'u) timer_env \<Rightarrow> ('a, 'u) timer_env" where
  "throttle_later func args env = invoke func args (clearTimeout (timeout_var env) env)"

definition throttle_executedFunction :: "nat \<Rightarrow> 'a \<Rightarrow> ('a, 'u) timer_env \<Rightarrow> ('a, 'u) timer_env" where
  "throttle_executedFunction wait args env =
     (let env1 = clearTimeout (timeout_var env) env;
          (h, env2) = set_timer args wait env1
      in env2\<lparr>timeout_var := Some h\<rparr>)"

text \<open>\<open>debounce(func, wait)\<close>, likewise.\<close>

definition debounce_later ::
  "('a \<Rightarrow> 'u \<Rightarrow> 'u) \<Rightarrow> 'a \<Rightarrow> ('a, 'u) timer_env \<Rightarrow> ('a, 'u) timer_env" where
  "debounce_later func args env = invoke func args (clearTimeout (timeout_var env) env)"

definition debounce_executedFunction :: "nat \<Rightarrow> 'a \<Rightarrow> ('a, 'u) timer_env \<Rightarrow> ('a, 'u) timer_env" where
  "debounce_executedFunction wait args env =
     (let env1 = clearTimeout (timeout_var env) env;
          (h, env2) = set_timer args wait env1
      in env2\<lparr>timeout_var := Some h\<rparr>)"

text \<open>
  What can happen to a wrapper: it is called, time passes, or the browser runs a timer
  that is due. The browser may run a due timer as late as it likes, never early; a
  timer it runs leaves the table first.
\<close>

datatype wrapper = Throttle | Debounce

datatype 'a occurrence = Call 'a | Tick nat | Fire

fun occur ::
  "wrapper \<Rightarrow> ('a \<Rightarrow> 'u \<Rightarrow> 'u) \<Rightarrow> nat \<Rightarrow> 'a occurrence \<Rightarrow> ('a, 'u) timer_env \<Rightarrow> ('a, 'u) timer_env"
where
  "occur w func wait (Call args) env =
     (let env1 = env\<lparr>history := history env @ [Called (now env) args]\<rparr>
      in case w of Throttle \<Rightarrow> throttle_executedFunction wait args env1
                | Debounce \<Rightarrow> debounce_executedFunction wait args env1)"
| "occur w func wait (Tick d) env = env\<lparr>now := now env + d\<rparr>"
| "occur w func wait Fire env =
     (case find (\<lambda>(k, due, args). due \<le> now env) (pending env) of
        None \<Rightarrow> env
      | Some (k, due, args) \<Rightarrow>
          (let env1 = env\<lparr>pending := filter (\<lambda>(k', due', args'). k' \<noteq> k) (pending env)\<rparr>
           in case w of Throttle \<Rightarrow> throttle_later func args env1
                      | Debounce \<Rightarrow> debounce_later func args env1))"

definition run ::
  "wrapper \<Rightarrow> ('a \<Rightarrow> 'u \<Rightarrow> 'u) \<Rightarrow> nat \<Rightarrow> 'a occurrence list \<Rightarrow> ('a, 'u) timer_env \<Rightarrow> ('a, 'u) timer_env"
where
  "run w func wait os env = fold (occur w func wait) os env"







section \<open>A sample page\<close>

definition mk_element ::
  "string \<Rightarrow> string \<Rightarrow> nat option \<Rightarrow> string list \<Rightarrow> (string \<times> string) list \<Rightarrow> real \<Rightarrow> real \<Rightarrow> element"
where
  "mk_element t i par cls ats top_y bottom_y =
     \<lparr>tag = t, elem_id = i, parent = par, classList = cls, attributes = map_of ats,
      textContent = [], disabled = False, rect_top = top_y, rect_bottom = bottom_y\<rparr>"

text \<open>A navigation bar with three links and three sections, in a viewport 1000 pixels
  high, scrolled so that the first section has left the viewport and the other two
  both reach into it. The second section holds a small link in the middle of the
  viewport, and the link holds a button.\<close>

definition sample_elements :: "element list" where
  "sample_elements =
     [mk_element ''nav'' [] None [] [] 0 60,
      mk_element ''a'' [] (Some 0) [''smooth-scroll'', ''active''] [(''href'', ''#homepage'')] 10 50,
      mk_element ''a'' [] (Some 0) [''smooth-scroll''] [(''href'', ''#performance'')] 10 50,
      mk_element ''a'' [] (Some 0) [''smooth-scroll''] [(''href'', ''#'')] 10 50,
      mk_element ''section'' ''homepage'' None [] [] (-900) (-100),
      mk_element ''section'' ''performance'' None [] [] (-100) 650,
      mk_element ''section'' ''report'' None [] [] 650 1500,
      mk_element ''a'' [] (Some 5) [''smooth-scroll''] [(''href'', ''#'')] 500 550,
      mk_element ''button'' ''goToReport'' (Some 7) [] [] 500 550]"

definition sample_page :: page where
  "sample_page =
     \<lparr>elements = sample_elements, innerHeight = 1000, clientHeight = 1000, scrollY = 900,
      pathname = ''/index.html'', search = ''?lang=it'', hash = [], hostname = ''example.org'',
      has_pushState = True, gtag_defined = True, vh_property = None, listeners = [],
      timeouts = [], effects = []\<rparr>"

text \<open>The same page in a viewport so high that no section reaches the band.\<close>

definition sample_page_tall :: page where
  "sample_page_tall = sample_page\<lparr>innerHeight := 6000\<rparr>"


text \<open>A page that has lost all but its first section.\<close>

definition sample_page_bare :: page where
  "sample_page_bare =
     sample_page\<lparr>elements := [mk_element ''section'' ''homepage'' None [] [] 0 1000]\<rparr>"

text \<open>The sample page with the last navigation link pointing to the third section.\<close>

definition sample_page_report :: page where
  "sample_page_report =
     sample_page\<lparr>elements :=
       sample_elements[3 := mk_element ''a'' [] (Some 0) [''smooth-scroll'']
                               [(''href'', ''#report'')] 10 50]\<rparr>"

section \<open>Lemmas on lookups\<close>

lemma first_index_bounds:
  "first_index P xs n = Some i \<Longrightarrow> n \<le> i \<and> i < n + length xs \<and> P (xs ! (i - n))"
proof (induction xs arbitrary: n)
  case Nil
  then show ?case by simp
next
  case (Cons x xs)
  show ?case
  proof (cases "P x")
    case True
    with Cons.prems show ?thesis by simp
  next
    case False
    with Cons.prems have "first_index P xs (Suc n) = Some i" by simp
    from Cons.IH [OF this]
    have ih: "Suc n \<le> i" "i < Suc n + length xs" "P (xs ! (i - Suc n))"
      by simp_all
    from ih(1) have "i - n = Suc (i - Suc n)" by arith
    with ih show ?thesis by simp
  qed
qed

lemma first_index_None: "first_index P xs n = None \<longleftrightarrow> (\<forall>x \<in> set xs. \<not> P x)"
  by (induction xs arbitrary: n) auto

lemma getElementById_Some:
  "getElementById p i = Some k \<Longrightarrow> k < length (elements p) \<and> elem_id (elements p ! k) = i"
  unfolding getElementById_def
  by (auto split: if_splits dest: first_index_bounds)

lemma active_loop_find:
  "active_loop p xs = (case find (section_visible p) xs of Some s \<Rightarrow> s | None \<Rightarrow> [])"
  by (induction xs) auto

lemma active_loop_prefix:
  "\<forall>x \<in> set pre. \<not> section_visible p x \<Longrightarrow> section_visible p s \<Longrightarrow>
   active_loop p (pre @ s # post) = s"
  by (induction pre) auto

lemma active_loop_none:
  "\<forall>x \<in> set xs. \<not> section_visible p x \<Longrightarrow> active_loop p xs = []"
  by (induction xs) auto

section \<open>Lemmas on the navigation links\<close>

lemma fold_mark_elements:
  "distinct is \<Longrightarrow> \<forall>i \<in> set is. i < length (elements p) \<Longrightarrow>
   elements (fold (set_link_active S) is p) =
   map (\<lambda>j. if j \<in> set is then mark_link S (elements p ! j) else elements p ! j)
       [0 ..< length (elements p)]"
proof (induction "is" arbitrary: p)
  case Nil
  then show ?case by (simp add: map_nth)
next
  case (Cons i "is")
  let ?q = "set_link_active S i p"
  have len: "length (elements ?q) = length (elements p)"
    by (simp add: set_link_active_def)
  have "elements (fold (set_link_active S) is ?q) =
    map (\<lambda>j. if j \<in> set is then mark_link S (elements ?q ! j) else elements ?q ! j)
       [0 ..< length (elements ?q)]"
    using Cons.prems by (intro Cons.IH) (auto simp: len)
  also have "\<dots> = map (\<lambda>j. if j \<in> set (i # is) then mark_link S (elements p ! j) else elements p ! j)
       [0 ..< length (elements p)]"
    using Cons.prems unfolding len
    by (auto simp: set_link_active_def nth_list_update)
  finally show ?case by simp
qed

lemma fold_mark_frame:
  "fold (set_link_active S) is p = p\<lparr>elements := elements (fold (set_link_active S) is p)\<rparr>"
proof (induction "is" arbitrary: p)
  case Nil
  show ?case by simp
next
  case (Cons i "is")
  have "fold (set_link_active S) (i # is) p = fold (set_link_active S) is (set_link_active S i p)"
    by simp
  also have "\<dots> = (set_link_active S i p)\<lparr>elements := elements (fold (set_link_active S) is (set_link_active S i p))\<rparr>"
    by (rule Cons.IH)
  also have "\<dots> = p\<lparr>elements := elements (fold (set_link_active S) (i # is) p)\<rparr>"
    by (simp add: set_link_active_def)
  finally show ?case .
qed

lemma nav_links_distinct: "distinct (querySelectorAll_nav_links p)"
  by (simp add: querySelectorAll_nav_links_def)

lemma nav_links_bound: "i \<in> set (querySelectorAll_nav_links p) \<Longrightarrow> i < length (elements p)"
  by (simp add: querySelectorAll_nav_links_def)

lemma updateActiveNavLink_elements:
  "elements (updateActiveNavLink p) =
   map (\<lambda>j. if j \<in> set (querySelectorAll_nav_links p)
            then mark_link (activeSection p) (elements p ! j) else elements p ! j)
       [0 ..< length (elements p)]"
  unfolding updateActiveNavLink_def Let_def
  by (rule fold_mark_elements) (simp_all add: nav_links_distinct nav_links_bound)

lemma updateActiveNavLink_frame:
  "updateActiveNavLink p = p\<lparr>elements := elements (updateActiveNavLink p)\<rparr>"
  unfolding updateActiveNavLink_def Let_def by (rule fold_mark_frame)

lemma updateActiveNavLink_length:
  "length (elements (updateActiveNavLink p)) = length (elements p)"
  by (simp add: updateActiveNavLink_elements)

lemma updateActiveNavLink_nth:
  "i < length (elements p) \<Longrightarrow>
   elements (updateActiveNavLink p) ! i =
   (if i \<in> set (querySelectorAll_nav_links p)
    then mark_link (activeSection p) (elements p ! i) else elements p ! i)"
  by (simp add: updateActiveNavLink_elements)

lemma mark_link_fixed:
  "tag (mark_link S e) = tag e" "parent (mark_link S e) = parent e"
  "elem_id (mark_link S e) = elem_id e"
  "getAttribute (mark_link S e) ''href'' = getAttribute e ''href''"
  "is_smooth_anchor (mark_link S e) = is_smooth_anchor e"
  by (auto simp: mark_link_def Let_def setAttribute_def classList_toggle_def getAttribute_def
      is_smooth_anchor_def)

lemma mark_link_result:
  "getAttribute e ''href'' = Some (CHR ''#'' # S) \<Longrightarrow>
   ''active'' \<in> set (classList (mark_link S e)) \<and>
   getAttribute (mark_link S e) ''aria-current'' = Some ''page''"
  "getAttribute e ''href'' \<noteq> Some (CHR ''#'' # S) \<Longrightarrow>
   ''active'' \<notin> set (classList (mark_link S e)) \<and>
   getAttribute (mark_link S e) ''aria-current'' = Some ''false''"
  by (auto simp: mark_link_def Let_def setAttribute_def classList_toggle_def getAttribute_def)

lemma ancestors_cong:
  "length els' = length els \<Longrightarrow> \<forall>j < length els. parent (els' ! j) = parent (els ! j) \<Longrightarrow>
   ancestors els' i = ancestors els i"
proof (induction els i rule: ancestors.induct)
  case (1 els i)
  show ?case
  proof (cases "i < length els")
    case False
    with 1 show ?thesis by (simp add: ancestors.simps)
  next
    case True
    note i = this
    show ?thesis
    proof (cases "parent (els ! i)")
      case None
      with i 1 show ?thesis by (simp add: ancestors.simps [of els] ancestors.simps [of els'])
    next
      case (Some a)
      show ?thesis
      proof (cases "a < i")
        case True
        from "1.IH" [OF i Some True "1.prems"] have "ancestors els' a = ancestors els a" .
        with i Some True 1 show ?thesis
          by (simp add: ancestors.simps [of els i] ancestors.simps [of els' i])
      next
        case False
        with i Some 1 show ?thesis
          by (simp add: ancestors.simps [of els i] ancestors.simps [of els' i])
      qed
    qed
  qed
qed

lemma ancestors_bound: "a \<in> set (ancestors els i) \<Longrightarrow> a < i"
proof (induction els i rule: ancestors.induct)
  case (1 els i)
  show ?case
  proof (cases "i < length els")
    case False
    with "1.prems" show ?thesis by (simp add: ancestors.simps)
  next
    case True
    note i = this
    show ?thesis
    proof (cases "parent (els ! i)")
      case None
      with i "1.prems" show ?thesis by (simp add: ancestors.simps)
    next
      case (Some b)
      show ?thesis
      proof (cases "b < i")
        case False
        with i Some "1.prems" show ?thesis by (simp add: ancestors.simps [of els i])
      next
        case True
        with i Some "1.prems" have "a = b \<or> a \<in> set (ancestors els b)"
          by (simp add: ancestors.simps [of els i])
        then show ?thesis
        proof
          assume "a = b"
          with True show ?thesis by simp
        next
          assume "a \<in> set (ancestors els b)"
          from "1.IH" [OF i Some True this] True show ?thesis by simp
        qed
      qed
    qed
  qed
qed

lemma nav_links_updateActiveNavLink:
  "querySelectorAll_nav_links (updateActiveNavLink p) = querySelectorAll_nav_links p"
proof -
  let ?els = "elements p" and ?els' = "elements (updateActiveNavLink p)"
  have len: "length ?els' = length ?els" by (rule updateActiveNavLink_length)
  have par: "\<forall>j < length ?els. parent (?els' ! j) = parent (?els ! j)"
    by (simp add: updateActiveNavLink_nth mark_link_fixed)
  have tg: "\<forall>j < length ?els. tag (?els' ! j) = tag (?els ! j)"
    by (simp add: updateActiveNavLink_nth mark_link_fixed)
  have sm: "\<forall>j < length ?els. is_smooth_anchor (?els' ! j) = is_smooth_anchor (?els ! j)"
    by (simp add: updateActiveNavLink_nth mark_link_fixed)
  have anc: "ancestors ?els' i = ancestors ?els i" for i
    by (rule ancestors_cong [OF len par])
  have "matches_nav_smooth ?els' i = matches_nav_smooth ?els i" if "i < length ?els" for i
  proof -
    have "\<forall>a \<in> set (ancestors ?els i). tag (?els' ! a) = tag (?els ! a)"
      using that tg by (auto dest!: ancestors_bound)
    with that sm show ?thesis
      by (auto simp: matches_nav_smooth_def anc)
  qed
  then show ?thesis
    unfolding querySelectorAll_nav_links_def len
    by (intro filter_cong) auto
qed

section \<open>Lemmas on the sample page\<close>

lemma sample_visible:
  "\<not> section_visible sample_page ''homepage''"
  "section_visible sample_page ''performance''"
  "section_visible sample_page ''report''"
  by (simp_all add: section_visible_def Let_def getElementById_def isElementVisible_def
      sample_page_def sample_elements_def mk_element_def windowHeight_def)

section \<open>Active section: the first visible one of three\<close>

text \<open>
  C1. \<open>updateActiveNavLink\<close> goes through the fixed list \<open>homepage\<close>, \<open>performance\<close>,
  \<open>report\<close> in this order and takes as active section the first identifier whose element
  exists and is visible at threshold 0.3. Whatever follows the first visible section has
  no influence on the result, and when no listed section is visible the active section is
  the empty string.
\<close>

theorem activeSection_first_visible:
  "sections = [''homepage'', ''performance'', ''report''] \<and>
   (\<forall>s. section_visible p s \<longleftrightarrow>
      (\<exists>i. getElementById p s = Some i \<and> isElementVisible p (Some i) 0.3)) \<and>
   activeSection p = (case find (section_visible p) sections of Some s \<Rightarrow> s | None \<Rightarrow> []) \<and>
   (\<forall>pre s post. (\<forall>x \<in> set pre. \<not> section_visible p x) \<and> section_visible p s \<longrightarrow>
      active_loop p (pre @ s # post) = s) \<and>
   ((\<forall>x \<in> set sections. \<not> section_visible p x) \<longrightarrow> activeSection p = [])"
proof (intro conjI allI impI)
  show "sections = [''homepage'', ''performance'', ''report'']"
    by (simp add: sections_def)
next
  fix s
  show "section_visible p s \<longleftrightarrow>
      (\<exists>i. getElementById p s = Some i \<and> isElementVisible p (Some i) 0.3)"
    by (auto simp: section_visible_def Let_def)
next
  show "activeSection p = (case find (section_visible p) sections of Some s \<Rightarrow> s | None \<Rightarrow> [])"
    unfolding activeSection_def by (rule active_loop_find)
next
  fix pre s post
  assume "(\<forall>x \<in> set pre. \<not> section_visible p x) \<and> section_visible p s"
  then show "active_loop p (pre @ s # post) = s"
    by (simp add: active_loop_prefix)
next
  assume "\<forall>x \<in> set sections. \<not> section_visible p x"
  then show "activeSection p = []"
    unfolding activeSection_def by (rule active_loop_none)
qed

text \<open>On the sample page the first section is out of view and the two others are both
  in view: the second one is active.\<close>

theorem activeSection_first_visible_witness:
  "\<not> section_visible sample_page ''homepage'' \<and> section_visible sample_page ''performance'' \<and>
   section_visible sample_page ''report'' \<and> activeSection sample_page = ''performance''"
proof -
  from activeSection_first_visible [of sample_page]
  have "(\<forall>x \<in> set [''homepage'']. \<not> section_visible sample_page x) \<and>
        section_visible sample_page ''performance'' \<longrightarrow>
        active_loop sample_page ([''homepage''] @ ''performance'' # [''report'']) = ''performance''"
    by blast
  then show ?thesis
    using sample_visible by (simp add: activeSection_def sections_def)
qed

section \<open>The visibility test and the overlap with the viewport\<close>




section \<open>Marking the navigation links\<close>

lemma sample_nav_links: "querySelectorAll_nav_links sample_page = [1, 2, 3]"
  by code_simp

lemma sample_tall_nav_links: "querySelectorAll_nav_links sample_page_tall = [1, 2, 3]"
  by code_simp

lemma sample_tall_hidden: "\<forall>x \<in> set sections. \<not> section_visible sample_page_tall x"
  by (simp add: sections_def section_visible_def Let_def getElementById_def isElementVisible_def
      sample_page_tall_def sample_page_def sample_elements_def mk_element_def windowHeight_def)

lemma sample_report_links: "querySelectorAll_nav_links sample_page_report = [1, 2, 3]"
  by code_simp

lemma sample_report_visible:
  "\<not> section_visible sample_page_report ''homepage''"
  "section_visible sample_page_report ''performance''"
  "section_visible sample_page_report ''report''"
  by (simp_all add: section_visible_def Let_def getElementById_def isElementVisible_def
      sample_page_report_def sample_page_def sample_elements_def mk_element_def windowHeight_def)

text \<open>
  C3, as stated: after \<open>updateActiveNavLink\<close> the links whose \<open>href\<close> names the active
  section are marked and all others are not, and in particular the link of a section
  that is scrolled into view gains the class \<open>active\<close>. The last part fails when an
  earlier section is in view as well: on the sample page the second and the third
  section are both in view, the scan stops at the second, and the link to the third
  section is left without the class.
\<close>

theorem updateActiveNavLink_in_view_counterexample:
  "section_visible sample_page_report ''report'' \<and>
   3 \<in> set (querySelectorAll_nav_links sample_page_report) \<and>
   getAttribute (elements sample_page_report ! 3) ''href'' = Some ''#report'' \<and>
   ''active'' \<notin> set (classList (elements (updateActiveNavLink sample_page_report) ! 3)) \<and>
   getAttribute (elements (updateActiveNavLink sample_page_report) ! 3) ''aria-current'' =
     Some ''false''"
proof -
  have act: "activeSection sample_page_report = ''performance''"
    using sample_report_visible by (simp add: activeSection_def sections_def)
  have href: "getAttribute (elements sample_page_report ! 3) ''href'' = Some ''#report''"
    by (simp add: sample_page_report_def sample_page_def sample_elements_def mk_element_def
        getAttribute_def)
  have len: "3 < length (elements sample_page_report)"
    by (simp add: sample_page_report_def sample_page_def sample_elements_def)
  have "elements (updateActiveNavLink sample_page_report) ! 3 =
        mark_link ''performance'' (elements sample_page_report ! 3)"
    using updateActiveNavLink_nth [OF len] by (simp add: sample_report_links act)
  with mark_link_result(2) [of "elements sample_page_report ! 3" "''performance''"] href
  show ?thesis
    by (simp add: sample_report_visible sample_report_links)
qed

text \<open>
  C3, amended: after \<open>updateActiveNavLink\<close> has found the active section \<open>S\<close>, the
  links selected by \<open>nav a.smooth-scroll\<close> are the same as before, each keeps its
  \<open>href\<close>, and a link whose \<open>href\<close> is \<open>#\<close> followed by \<open>S\<close> carries the class
  \<open>active\<close> and \<open>aria-current\<close> \<open>page\<close>, while every other link has lost the class and
  carries \<open>aria-current\<close> \<open>false\<close>. In particular, when a listed section is in view and
  no section listed before it is, its link gains the class.
\<close>

theorem updateActiveNavLink_marks_links:
  "querySelectorAll_nav_links (updateActiveNavLink p) = querySelectorAll_nav_links p \<and>
   (\<forall>i \<in> set (querySelectorAll_nav_links p).
      getAttribute (elements (updateActiveNavLink p) ! i) ''href'' =
        getAttribute (elements p ! i) ''href'' \<and>
      (if getAttribute (elements (updateActiveNavLink p) ! i) ''href'' =
            Some (CHR ''#'' # activeSection p)
       then ''active'' \<in> set (classList (elements (updateActiveNavLink p) ! i)) \<and>
            getAttribute (elements (updateActiveNavLink p) ! i) ''aria-current'' = Some ''page''
       else ''active'' \<notin> set (classList (elements (updateActiveNavLink p) ! i)) \<and>
            getAttribute (elements (updateActiveNavLink p) ! i) ''aria-current'' = Some ''false'')) \<and>
   (\<forall>s. find (section_visible p) sections = Some s \<longrightarrow>
      (\<forall>i \<in> set (querySelectorAll_nav_links p).
         getAttribute (elements (updateActiveNavLink p) ! i) ''href'' = Some (CHR ''#'' # s) \<longrightarrow>
         ''active'' \<in> set (classList (elements (updateActiveNavLink p) ! i))))"
proof -
  have link: "elements (updateActiveNavLink p) ! i = mark_link (activeSection p) (elements p ! i)"
    if "i \<in> set (querySelectorAll_nav_links p)" for i
    using that by (simp add: updateActiveNavLink_nth nav_links_bound)
  have marked: "getAttribute (elements (updateActiveNavLink p) ! i) ''href'' =
        getAttribute (elements p ! i) ''href'' \<and>
      (if getAttribute (elements (updateActiveNavLink p) ! i) ''href'' =
            Some (CHR ''#'' # activeSection p)
       then ''active'' \<in> set (classList (elements (updateActiveNavLink p) ! i)) \<and>
            getAttribute (elements (updateActiveNavLink p) ! i) ''aria-current'' = Some ''page''
       else ''active'' \<notin> set (classList (elements (updateActiveNavLink p) ! i)) \<and>
            getAttribute (elements (updateActiveNavLink p) ! i) ''aria-current'' = Some ''false'')"
    if "i \<in> set (querySelectorAll_nav_links p)" for i
    using mark_link_result [of "elements p ! i" "activeSection p"]
    by (simp add: link [OF that] mark_link_fixed)
  have first: "activeSection p = s" if "find (section_visible p) sections = Some s" for s
    using that by (simp add: activeSection_def active_loop_find)
  show ?thesis
    using marked first nav_links_updateActiveNavLink [of p] by (auto split: if_splits)
qed

text \<open>On the sample page the link to the second section gains the class and the link
  to the first section, which had it, loses it.\<close>

theorem updateActiveNavLink_marks_links_witness:
  "2 \<in> set (querySelectorAll_nav_links sample_page) \<and>
   1 \<in> set (querySelectorAll_nav_links sample_page) \<and>
   find (section_visible sample_page) sections = Some ''performance'' \<and>
   getAttribute (elements sample_page ! 2) ''href'' = Some ''#performance'' \<and>
   ''active'' \<notin> set (classList (elements sample_page ! 2)) \<and>
   ''active'' \<in> set (classList (elements (updateActiveNavLink sample_page) ! 2)) \<and>
   getAttribute (elements (updateActiveNavLink sample_page) ! 2) ''aria-current'' = Some ''page'' \<and>
   ''active'' \<in> set (classList (elements sample_page ! 1)) \<and>
   ''active'' \<notin> set (classList (elements (updateActiveNavLink sample_page) ! 1)) \<and>
   getAttribute (elements (updateActiveNavLink sample_page) ! 1) ''aria-current'' = Some ''false''"
proof -
  have act: "activeSection sample_page = ''performance''"
    using sample_visible by (simp add: activeSection_def sections_def)
  have fnd: "find (section_visible sample_page) sections = Some ''performance''"
    using sample_visible by (simp add: sections_def)
  have hrefs: "getAttribute (elements sample_page ! 2) ''href'' = Some ''#performance''"
    "getAttribute (elements sample_page ! 1) ''href'' = Some ''#homepage''"
    "''active'' \<notin> set (classList (elements sample_page ! 2))"
    "''active'' \<in> set (classList (elements sample_page ! 1))"
    by (simp_all add: sample_page_def sample_elements_def mk_element_def getAttribute_def)
  from updateActiveNavLink_marks_links [of sample_page] hrefs act fnd show ?thesis
    by (simp add: sample_nav_links)
qed

section \<open>No section in view\<close>

text \<open>
  C10. When none of the three listed sections is visible, the active section is the
  empty string, and a link selected by \<open>nav a.smooth-scroll\<close> is marked active exactly
  when its \<open>href\<close> is the bare \<open>#\<close>: that link gets the class \<open>active\<close> and
  \<open>aria-current\<close> \<open>page\<close>, and every link with another \<open>href\<close> gets
  \<open>aria-current\<close> \<open>false\<close>.
\<close>

theorem updateActiveNavLink_none_visible:
  "(\<forall>x \<in> set sections. \<not> section_visible p x) \<longrightarrow>
   activeSection p = [] \<and>
   (\<forall>i \<in> set (querySelectorAll_nav_links p).
      getAttribute (elements (updateActiveNavLink p) ! i) ''href'' =
        getAttribute (elements p ! i) ''href'' \<and>
      (''active'' \<in> set (classList (elements (updateActiveNavLink p) ! i)) \<longleftrightarrow>
         getAttribute (elements p ! i) ''href'' = Some ''#'') \<and>
      (getAttribute (elements (updateActiveNavLink p) ! i) ''aria-current'' = Some ''page'' \<longleftrightarrow>
         getAttribute (elements p ! i) ''href'' = Some ''#'') \<and>
      (getAttribute (elements p ! i) ''href'' \<noteq> Some ''#'' \<longrightarrow>
         getAttribute (elements (updateActiveNavLink p) ! i) ''aria-current'' = Some ''false''))"
proof
  assume hidden: "\<forall>x \<in> set sections. \<not> section_visible p x"
  then have act: "activeSection p = []"
    unfolding activeSection_def by (rule active_loop_none)
  have each: "getAttribute (elements (updateActiveNavLink p) ! i) ''href'' =
        getAttribute (elements p ! i) ''href'' \<and>
      (''active'' \<in> set (classList (elements (updateActiveNavLink p) ! i)) \<longleftrightarrow>
         getAttribute (elements p ! i) ''href'' = Some ''#'') \<and>
      (getAttribute (elements (updateActiveNavLink p) ! i) ''aria-current'' = Some ''page'' \<longleftrightarrow>
         getAttribute (elements p ! i) ''href'' = Some ''#'') \<and>
      (getAttribute (elements p ! i) ''href'' \<noteq> Some ''#'' \<longrightarrow>
         getAttribute (elements (updateActiveNavLink p) ! i) ''aria-current'' = Some ''false'')"
    if i: "i \<in> set (querySelectorAll_nav_links p)" for i
  proof -
    from i have link: "elements (updateActiveNavLink p) ! i = mark_link [] (elements p ! i)"
      by (simp add: updateActiveNavLink_nth nav_links_bound act)
    show ?thesis
      using mark_link_result [of "elements p ! i" "[]"]
      by (cases "getAttribute (elements p ! i) ''href'' = Some ''#''")
         (simp_all add: link mark_link_fixed)
  qed
  from act each show "activeSection p = [] \<and>
   (\<forall>i \<in> set (querySelectorAll_nav_links p).
      getAttribute (elements (updateActiveNavLink p) ! i) ''href'' =
        getAttribute (elements p ! i) ''href'' \<and>
      (''active'' \<in> set (classList (elements (updateActiveNavLink p) ! i)) \<longleftrightarrow>
         getAttribute (elements p ! i) ''href'' = Some ''#'') \<and>
      (getAttribute (elements (updateActiveNavLink p) ! i) ''aria-current'' = Some ''page'' \<longleftrightarrow>
         getAttribute (elements p ! i) ''href'' = Some ''#'') \<and>
      (getAttribute (elements p ! i) ''href'' \<noteq> Some ''#'' \<longrightarrow>
         getAttribute (elements (updateActiveNavLink p) ! i) ''aria-current'' = Some ''false''))"
    by blast
qed

text \<open>In the tall viewport no section is in view: the link with \<open>href\<close> \<open>#\<close> is
  marked, the link to the second section is not.\<close>

theorem updateActiveNavLink_none_visible_witness:
  "\<not> section_visible sample_page_tall ''homepage'' \<and>
   \<not> section_visible sample_page_tall ''performance'' \<and>
   \<not> section_visible sample_page_tall ''report'' \<and>
   activeSection sample_page_tall = [] \<and>
   3 \<in> set (querySelectorAll_nav_links sample_page_tall) \<and>
   getAttribute (elements sample_page_tall ! 3) ''href'' = Some ''#'' \<and>
   ''active'' \<in> set (classList (elements (updateActiveNavLink sample_page_tall) ! 3)) \<and>
   getAttribute (elements (updateActiveNavLink sample_page_tall) ! 3) ''aria-current'' = Some ''page'' \<and>
   2 \<in> set (querySelectorAll_nav_links sample_page_tall) \<and>
   getAttribute (elements sample_page_tall ! 2) ''href'' = Some ''#performance'' \<and>
   ''active'' \<notin> set (classList (elements (updateActiveNavLink sample_page_tall) ! 2)) \<and>
   getAttribute (elements (updateActiveNavLink sample_page_tall) ! 2) ''aria-current'' = Some ''false''"
proof -
  have hrefs: "getAttribute (elements sample_page_tall ! 3) ''href'' = Some ''#''"
    "getAttribute (elements sample_page_tall ! 2) ''href'' = Some ''#performance''"
    by (simp_all add: sample_page_tall_def sample_page_def sample_elements_def mk_element_def
        getAttribute_def)
  from updateActiveNavLink_none_visible [of sample_page_tall] sample_tall_hidden hrefs show ?thesis
    by (simp add: sample_tall_nav_links sections_def)
qed

section \<open>Scrolling to an element\<close>


text \<open>
  C5. When no element carries the identifier, \<open>scrollToElement\<close> returns false and
  leaves the page as it was but for one console warning: nothing is scrolled, no history
  entry is pushed, the location is unchanged and nothing is focused. The function has no
  failing branch, so nothing is thrown.
\<close>

theorem scrollToElement_missing:
  "getElementById p targetId = None \<longrightarrow>
   scrollToElement targetId options p =
     (False,
      p\<lparr>effects := effects p @
         [ConsoleWarn (''[Airbus Site] Element with ID '' @ [CHR 0x27] @ targetId @ [CHR 0x27] @
                       '' not found'') []]\<rparr>)"
  by (simp add: scrollToElement_def emit_def)

theorem scrollToElement_missing_witness:
  "getElementById sample_page ''contact'' = None \<and>
   fst (scrollToElement ''contact'' no_options sample_page) = False \<and>
   effects (snd (scrollToElement ''contact'' no_options sample_page)) =
     [ConsoleWarn (''[Airbus Site] Element with ID '' @ [CHR 0x27] @ ''contact'' @ [CHR 0x27] @
                       '' not found'') []] \<and>
   hash (snd (scrollToElement ''contact'' no_options sample_page)) = []"
proof -
  have none: "getElementById sample_page ''contact'' = None"
    by (simp add: getElementById_def sample_page_def sample_elements_def mk_element_def)
  with scrollToElement_missing [of sample_page "''contact''" no_options] show ?thesis
    by (simp add: sample_page_def)
qed




section \<open>Lemmas on regular expressions\<close>

lemma star_Cons_dest:
  "x \<in> star A \<Longrightarrow> x = c # w \<Longrightarrow> \<exists>u v. w = u @ v \<and> c # u \<in> A \<and> v \<in> star A"
proof (induction rule: star.induct)
  case star_empty
  then show ?case by simp
next
  case (star_step u v)
  show ?case
  proof (cases u)
    case Nil
    with star_step show ?thesis by simp
  next
    case (Cons d u')
    with star_step have "w = u' @ v" "c # u' \<in> A" "v \<in> star A" by auto
    then show ?thesis by blast
  qed
qed

lemma star_Cons:
  "c # w \<in> star A \<longleftrightarrow> (\<exists>u v. w = u @ v \<and> c # u \<in> A \<and> v \<in> star A)"
proof
  assume "c # w \<in> star A"
  then show "\<exists>u v. w = u @ v \<and> c # u \<in> A \<and> v \<in> star A"
    by (rule star_Cons_dest) simp
next
  assume "\<exists>u v. w = u @ v \<and> c # u \<in> A \<and> v \<in> star A"
  then obtain u v where "w = u @ v" "c # u \<in> A" "v \<in> star A" by blast
  then show "c # w \<in> star A"
    using star_step [of "c # u" A v] by simp
qed

lemma nullable_lang: "nullable r \<longleftrightarrow> [] \<in> lang r"
  by (induction r) (auto intro: star_empty)

lemma concat_Cons:
  "c # w \<in> {u @ v | u v. u \<in> R \<and> v \<in> S} \<longleftrightarrow>
   (\<exists>u v. w = u @ v \<and> c # u \<in> R \<and> v \<in> S) \<or> ([] \<in> R \<and> c # w \<in> S)"
proof
  assume "c # w \<in> {u @ v | u v. u \<in> R \<and> v \<in> S}"
  then obtain u v where uv: "c # w = u @ v" "u \<in> R" "v \<in> S" by blast
  show "(\<exists>u v. w = u @ v \<and> c # u \<in> R \<and> v \<in> S) \<or> ([] \<in> R \<and> c # w \<in> S)"
  proof (cases u)
    case Nil
    with uv show ?thesis by simp
  next
    case (Cons d u')
    with uv have "w = u' @ v" "c # u' \<in> R" by auto
    with uv(3) show ?thesis by blast
  qed
next
  assume "(\<exists>u v. w = u @ v \<and> c # u \<in> R \<and> v \<in> S) \<or> ([] \<in> R \<and> c # w \<in> S)"
  then show "c # w \<in> {u @ v | u v. u \<in> R \<and> v \<in> S}"
  proof
    assume "\<exists>u v. w = u @ v \<and> c # u \<in> R \<and> v \<in> S"
    then obtain u v where "w = u @ v" "c # u \<in> R" "v \<in> S" by blast
    then have "c # w = (c # u) @ v \<and> c # u \<in> R \<and> v \<in> S" by simp
    then show ?thesis by blast
  next
    assume "[] \<in> R \<and> c # w \<in> S"
    then have "c # w = [] @ (c # w) \<and> [] \<in> R \<and> c # w \<in> S" by simp
    then show ?thesis by blast
  qed
qed

lemma lang_deriv: "w \<in> lang (deriv c r) \<longleftrightarrow> c # w \<in> lang r"
proof (induction r arbitrary: w)
  case Zero
  show ?case by simp
next
  case One
  show ?case by simp
next
  case (Chr d)
  show ?case by auto
next
  case (Cls rs)
  show ?case by auto
next
  case (Alt r s)
  then show ?case by simp
next
  case (Seq r s)
  have "w \<in> lang (deriv c (Seq r s)) \<longleftrightarrow>
        (\<exists>u v. w = u @ v \<and> c # u \<in> lang r \<and> v \<in> lang s) \<or> ([] \<in> lang r \<and> c # w \<in> lang s)"
    using Seq by (auto simp: nullable_lang)
  then show ?case
    by (simp only: lang.simps concat_Cons)
next
  case (Star r)
  then show ?case by (auto simp: star_Cons)
qed

lemma regex_test_lang: "regex_test r s \<longleftrightarrow> s \<in> lang r"
  unfolding regex_test_def
  by (induction s arbitrary: r) (simp_all add: nullable_lang lang_deriv)

lemma star_class: "w \<in> star {[c] | c. P c} \<longleftrightarrow> (\<forall>x \<in> set w. P x)"
proof
  assume "w \<in> star {[c] | c. P c}"
  then show "\<forall>x \<in> set w. P x"
    by (induction rule: star.induct) auto
next
  assume "\<forall>x \<in> set w. P x"
  then show "w \<in> star {[c] | c. P c}"
  proof (induction w)
    case Nil
    show ?case by (rule star_empty)
  next
    case (Cons a w)
    then have "[a] \<in> {[c] | c. P c}" "w \<in> star {[c] | c. P c}" by auto
    from star_step [OF this] show ?case by simp
  qed
qed

lemma lang_SeqI: "u \<in> lang r \<Longrightarrow> v \<in> lang s \<Longrightarrow> u @ v \<in> lang (Seq r s)"
  by (simp only: lang.simps) blast

lemma lang_SeqE:
  "x \<in> lang (Seq r s) \<Longrightarrow> \<exists>u v. x = u @ v \<and> u \<in> lang r \<and> v \<in> lang s"
  by (simp only: lang.simps) blast

lemma lang_Seq_Chr: "x \<in> lang (Seq (Chr d) r) \<longleftrightarrow> (\<exists>w. x = d # w \<and> w \<in> lang r)"
proof
  assume "x \<in> lang (Seq (Chr d) r)"
  from lang_SeqE [OF this] obtain u v where "x = u @ v" "u \<in> lang (Chr d)" "v \<in> lang r"
    by blast
  then have "x = d # v \<and> v \<in> lang r" by simp
  then show "\<exists>w. x = d # w \<and> w \<in> lang r" ..
next
  assume "\<exists>w. x = d # w \<and> w \<in> lang r"
  then obtain w where w: "x = d # w" "w \<in> lang r" by blast
  have "[d] \<in> lang (Chr d)" by simp
  from lang_SeqI [OF this w(2)] w(1) show "x \<in> lang (Seq (Chr d) r)" by simp
qed

lemma lang_Seq_Cls:
  "x \<in> lang (Seq (Cls rs) r) \<longleftrightarrow> (\<exists>c w. x = c # w \<and> in_class rs c \<and> w \<in> lang r)"
proof
  assume "x \<in> lang (Seq (Cls rs) r)"
  from lang_SeqE [OF this] obtain u v where uv: "x = u @ v" "u \<in> lang (Cls rs)" "v \<in> lang r"
    by blast
  from uv(2) obtain c where "u = [c]" "in_class rs c" by auto
  with uv have "x = c # v \<and> in_class rs c \<and> v \<in> lang r" by simp
  then show "\<exists>c w. x = c # w \<and> in_class rs c \<and> w \<in> lang r" by blast
next
  assume "\<exists>c w. x = c # w \<and> in_class rs c \<and> w \<in> lang r"
  then obtain c w where w: "x = c # w" "in_class rs c" "w \<in> lang r" by blast
  from w(2) have "[c] \<in> lang (Cls rs)" by simp
  from lang_SeqI [OF this w(3)] w(1) show "x \<in> lang (Seq (Cls rs) r)" by simp
qed

lemma lang_href_regex:
  "x \<in> lang href_regex \<longleftrightarrow>
   (\<exists>c rest. x = CHR ''#'' # c # rest \<and> in_class letter_ranges c \<and>
              (\<forall>y \<in> set rest. in_class word_hyphen_ranges y))"
proof -
  have tail: "w \<in> lang (Seq (Cls letter_ranges) (Star (Cls word_hyphen_ranges))) \<longleftrightarrow>
     (\<exists>c rest. w = c # rest \<and> in_class letter_ranges c \<and>
                (\<forall>y \<in> set rest. in_class word_hyphen_ranges y))" for w
    unfolding lang_Seq_Cls by (simp only: lang.simps star_class)
  show ?thesis
    unfolding href_regex_def lang_Seq_Chr tail by blast
qed

section \<open>Lemmas on character classes\<close>

lemma mem_map_char_of:
  "\<forall>n \<in> set ns. n < 256 \<Longrightarrow> c \<in> set (map char_of ns) \<longleftrightarrow> (of_char c :: nat) \<in> set ns"
proof
  assume b: "\<forall>n \<in> set ns. n < 256" and "c \<in> set (map char_of ns)"
  then obtain n where n: "n \<in> set ns" "c = char_of n" by auto
  with b have "n < 256" by simp
  with n show "(of_char c :: nat) \<in> set ns" by (simp add: of_char_of)
next
  assume "(of_char c :: nat) \<in> set ns"
  then have "char_of (of_char c :: nat) \<in> char_of ` set ns" by (rule imageI)
  then show "c \<in> set (map char_of ns)" by simp
qed

lemma letters_enum:
  "''abcdefghijklmnopqrstuvwxyzABCDEFGHIJKLMNOPQRSTUVWXYZ'' =
   map char_of ([97 ..< 123] @ [65 ..< 91 :: nat])"
  by code_simp

lemma digits_enum: "''0123456789'' = map char_of [48 ..< 58 :: nat]"
  by code_simp

lemma ascii_letter_code:
  "ascii_letter c \<longleftrightarrow>
     (97 \<le> (of_char c :: nat) \<and> (of_char c :: nat) \<le> 122) \<or>
     (65 \<le> (of_char c :: nat) \<and> (of_char c :: nat) \<le> 90)"
proof -
  have "\<forall>n \<in> set ([97 ..< 123] @ [65 ..< 91 :: nat]). n < 256"
    by (simp only: set_append set_upt) auto
  then have "ascii_letter c \<longleftrightarrow> (of_char c :: nat) \<in> set ([97 ..< 123] @ [65 ..< 91])"
    unfolding ascii_letter_def letters_enum by (rule mem_map_char_of)
  then show ?thesis
    by (simp only: set_append set_upt Un_iff atLeastLessThan_iff) arith
qed

lemma digit_code:
  "c \<in> set ''0123456789'' \<longleftrightarrow> 48 \<le> (of_char c :: nat) \<and> (of_char c :: nat) \<le> 57"
proof -
  have "\<forall>n \<in> set [48 ..< 58 :: nat]. n < 256"
    by (simp only: set_upt) auto
  then have "c \<in> set ''0123456789'' \<longleftrightarrow> (of_char c :: nat) \<in> set [48 ..< 58]"
    unfolding digits_enum by (rule mem_map_char_of)
  then show ?thesis
    by (simp only: set_upt atLeastLessThan_iff) arith
qed

lemma in_class_letter: "in_class letter_ranges c = ascii_letter c"
  unfolding ascii_letter_code by (simp add: in_class_def letter_ranges_def)

lemma in_class_word_hyphen:
  "in_class word_hyphen_ranges c = (word_char c \<or> c = CHR ''-'')"
proof -
  have "c = CHR ''_'' \<longleftrightarrow> (of_char c :: nat) = of_char CHR ''_''"
    by (simp only: of_char_eq_iff)
  then have u: "c = CHR ''_'' \<longleftrightarrow> (of_char c :: nat) = 95" by simp
  have "c = CHR ''-'' \<longleftrightarrow> (of_char c :: nat) = of_char CHR ''-''"
    by (simp only: of_char_eq_iff)
  then have h: "c = CHR ''-'' \<longleftrightarrow> (of_char c :: nat) = 45" by simp
  show ?thesis
    unfolding word_char_def ascii_letter_code digit_code u h
    by (simp add: in_class_def word_hyphen_ranges_def) arith
qed

section \<open>Lemmas on the validation of a link target\<close>

lemma regex_test_href:
  "regex_test href_regex s \<longleftrightarrow>
   (\<exists>c rest. s = CHR ''#'' # c # rest \<and> ascii_letter c \<and>
              (\<forall>x \<in> set rest. word_char x \<or> x = CHR ''-''))"
  by (simp add: regex_test_lang lang_href_regex in_class_letter in_class_word_hyphen)

lemma validateHref_cases:
  "validateHref v = JBool True \<longleftrightarrow> (\<exists>s. v = JString s \<and> regex_test href_regex s)"
proof (cases v)
  case JNull
  then show ?thesis by (simp add: validateHref_def)
next
  case (JString s)
  show ?thesis
  proof (cases "regex_test href_regex s")
    case False
    with JString show ?thesis by (simp add: validateHref_def)
  next
    case True
    then obtain c rest where "s = CHR ''#'' # c # rest" by (auto simp: regex_test_href)
    with True JString show ?thesis by (simp add: validateHref_def)
  qed
next
  case (JBool b)
  then show ?thesis by (cases b) (simp_all add: validateHref_def)
qed

lemma truthy_validateHref: "truthy (validateHref v) \<longleftrightarrow> validateHref v = JBool True"
proof (cases v)
  case JNull
  then show ?thesis by (simp add: validateHref_def)
next
  case (JString s)
  then show ?thesis by (simp add: validateHref_def)
next
  case (JBool b)
  then show ?thesis by (cases b) (simp_all add: validateHref_def)
qed

section \<open>Clicks on links with an invalid target\<close>

lemma validateHref_examples:
  "validateHref (JString ''#report'') = JBool True"
  "validateHref (JString ''#'') = JBool False"
  "validateHref (JString ''#1x'') = JBool False"
  "validateHref (JString ''/index.html'') = JBool False"
  "validateHref (JString ''#a_b-9'') = JBool True"
  "validateHref (JString []) = JString []"
  "validateHref JNull = JNull"
  by code_simp+

lemma sample_closest:
  "closest sample_page 3 (\<lambda>e. elem_id e = ''goToReport'') = None"
  "closest sample_page 3 is_smooth_anchor = Some 3"
  "closest sample_page 8 (\<lambda>e. elem_id e = ''goToReport'') = Some 8"
  "closest sample_page 8 is_smooth_anchor = Some 7"
  by code_simp+

text \<open>
  C9, as stated: \<open>validateHref\<close> returns true exactly for \<open>#\<close>, an ASCII letter and
  then word characters or hyphens, and therefore a click on a smooth-scroll link whose
  \<open>href\<close> fails the test only logs a warning and never reaches \<open>scrollToElement\<close> or the
  analytics. The second part fails for a click inside the element \<open>goToReport\<close>: on the
  sample page the button sits in a smooth-scroll link whose \<open>href\<close> is the bare \<open>#\<close>,
  and a click on it scrolls to the report and is tracked, since the button is handled
  first.
\<close>

theorem invalid_click_inside_button_counterexample:
  "closest sample_page 8 is_smooth_anchor = Some 7 \<and>
   getAttribute (elements sample_page ! 7) ''href'' = Some ''#'' \<and>
   validateHref (JString ''#'') = JBool False \<and>
   effects (handleDocumentClick 8 sample_page) =
     [PreventDefault, ScrollIntoView 6 ''smooth'' ''start'' ''nearest'',
      PushState ''/index.html?lang=it#report'', Focus 6,
      Gtag ''button_click'' ''go_to_report'' ''homepage'']"
  by code_simp

text \<open>
  C9, amended: \<open>validateHref\<close> returns true exactly for a string made of \<open>#\<close>, an
  ASCII letter and then any number of word characters or hyphens. A click that is not
  inside the element \<open>goToReport\<close> and whose nearest smooth-scroll link has an \<open>href\<close>
  failing the test prevents the default action and logs one warning with the \<open>href\<close>;
  nothing else happens: no scrolling, no history entry, no focus, no analytics.
\<close>

theorem validateHref_and_invalid_click:
  "(validateHref v = JBool True \<longleftrightarrow>
      (\<exists>c rest. v = JString (CHR ''#'' # c # rest) \<and> ascii_letter c \<and>
                 (\<forall>x \<in> set rest. word_char x \<or> x = CHR ''-''))) \<and>
   (closest p target (\<lambda>e. elem_id e = ''goToReport'') = None \<and>
    closest p target is_smooth_anchor = Some l \<and>
    validateHref (of_attribute (getAttribute (elements p ! l) ''href'')) \<noteq> JBool True \<longrightarrow>
    handleDocumentClick target p =
      p\<lparr>effects := effects p @
         [PreventDefault,
          ConsoleWarn ''[Airbus Site] Invalid href format for smooth scroll:''
            [of_attribute (getAttribute (elements p ! l) ''href'')]]\<rparr>)"
proof (intro conjI impI)
  show "validateHref v = JBool True \<longleftrightarrow>
      (\<exists>c rest. v = JString (CHR ''#'' # c # rest) \<and> ascii_letter c \<and>
                 (\<forall>x \<in> set rest. word_char x \<or> x = CHR ''-''))"
    unfolding validateHref_cases regex_test_href by blast
next
  assume a: "closest p target (\<lambda>e. elem_id e = ''goToReport'') = None \<and>
    closest p target is_smooth_anchor = Some l \<and>
    validateHref (of_attribute (getAttribute (elements p ! l) ''href'')) \<noteq> JBool True"
  then have "\<not> truthy (validateHref (of_attribute (getAttribute (elements p ! l) ''href'')))"
    by (simp add: truthy_validateHref)
  with a show "handleDocumentClick target p =
      p\<lparr>effects := effects p @
         [PreventDefault,
          ConsoleWarn ''[Airbus Site] Invalid href format for smooth scroll:''
            [of_attribute (getAttribute (elements p ! l) ''href'')]]\<rparr>"
    by (simp add: handleDocumentClick_def Let_def emit_def)
qed

text \<open>A click on the navigation link whose \<open>href\<close> is the bare \<open>#\<close>.\<close>

theorem validateHref_and_invalid_click_witness:
  "closest sample_page 3 (\<lambda>e. elem_id e = ''goToReport'') = None \<and>
   closest sample_page 3 is_smooth_anchor = Some 3 \<and>
   getAttribute (elements sample_page ! 3) ''href'' = Some ''#'' \<and>
   validateHref (JString ''#'') = JBool False \<and>
   validateHref (JString ''#report'') = JBool True \<and>
   effects (handleDocumentClick 3 sample_page) =
     [PreventDefault,
      ConsoleWarn ''[Airbus Site] Invalid href format for smooth scroll:'' [JString ''#'']] \<and>
   elements (handleDocumentClick 3 sample_page) = elements sample_page \<and>
   hash (handleDocumentClick 3 sample_page) = []"
proof -
  have href: "getAttribute (elements sample_page ! 3) ''href'' = Some ''#''"
    by (simp add: sample_page_def sample_elements_def mk_element_def getAttribute_def)
  have eff: "effects sample_page = []" "hash sample_page = []"
    by (simp_all add: sample_page_def)
  from validateHref_and_invalid_click [of "JString ''#report''" sample_page 3 3]
  show ?thesis
    by (simp add: sample_closest href validateHref_examples of_attribute_def eff)
qed

section \<open>Throttle and debounce are one function\<close>


lemma executedFunction_same:
  "throttle_executedFunction wait args env = debounce_executedFunction wait args env"
  by (simp add: throttle_executedFunction_def debounce_executedFunction_def)

lemma later_same: "throttle_later func args env = debounce_later func args env"
  by (simp add: throttle_later_def debounce_later_def)

lemma occur_same: "occur Throttle func wait oc env = occur Debounce func wait oc env"
  by (cases oc) (simp_all add: executedFunction_same later_same split: option.splits)

text \<open>
  C8. \<open>throttle\<close> and \<open>debounce\<close> behave alike: for every wrapped function, every wait
  and every sequence of calls, clock ticks and timer runs, starting from the same state,
  the two wrappers schedule the same timers and call the wrapped function at the same
  moments with the same arguments. Their returned functions and their timer callbacks
  are equal step by step.
\<close>

theorem throttle_debounce_identical:
  "throttle_executedFunction wait args env = debounce_executedFunction wait args env \<and>
   throttle_later func args env = debounce_later func args env \<and>
   run Throttle func wait os env = run Debounce func wait os env"
proof -
  have "occur Throttle func wait = occur Debounce func wait"
    by (intro ext) (rule occur_same)
  then show ?thesis
    by (simp add: run_def executedFunction_same later_same)
qed

section \<open>Lemmas on the wrappers\<close>










section \<open>Lemmas on what the start-up steps leave alone\<close>

lemma frame_fold:
  assumes "\<And>x q. \<exists>E. f x q = q\<lparr>elements := E\<rparr>"
  shows "\<exists>E. fold f xs p = p\<lparr>elements := E\<rparr>"
proof (induction xs arbitrary: p)
  case Nil
  have "fold f [] p = p\<lparr>elements := elements p\<rparr>" by simp
  then show ?case by blast
next
  case (Cons x xs)
  from assms obtain E1 where 1: "f x p = p\<lparr>elements := E1\<rparr>" by blast
  from Cons [of "f x p"] obtain E2 where "fold f xs (f x p) = (f x p)\<lparr>elements := E2\<rparr>" by blast
  with 1 have "fold f (x # xs) p = p\<lparr>elements := E2\<rparr>" by simp
  then show ?case by blast
qed

lemma update_element_frame: "\<exists>E. update_element i f p = p\<lparr>elements := E\<rparr>"
  unfolding update_element_def by blast

lemma keep_frame: "\<exists>E. p = p\<lparr>elements := E\<rparr>"
proof -
  have "p = p\<lparr>elements := elements p\<rparr>" by simp
  then show ?thesis by blast
qed

lemma twice_frame:
  assumes "\<exists>E. q = p\<lparr>elements := E\<rparr>" and "\<exists>E. r = q\<lparr>elements := E\<rparr>"
  shows "\<exists>E. r = p\<lparr>elements := E\<rparr>"
proof -
  from assms obtain E1 E2 where "q = p\<lparr>elements := E1\<rparr>" "r = q\<lparr>elements := E2\<rparr>" by blast
  then have "r = p\<lparr>elements := E2\<rparr>" by simp
  then show ?thesis by blast
qed

lemma label_section_frame: "\<exists>E. label_section ix p = p\<lparr>elements := E\<rparr>"
proof (cases "falsy_attribute (getAttribute (elements p ! snd ix) ''aria-labelledby'') \<and>
            falsy_attribute (getAttribute (elements p ! snd ix) ''aria-label'')")
  case False
  then have "label_section ix p = p" by (auto simp: label_section_def Let_def)
  then show ?thesis using keep_frame [of p] by simp
next
  case True
  show ?thesis
  proof (cases "querySelector_within p (snd ix) is_heading")
    case None
    with True have "label_section ix p = p" by (simp add: label_section_def Let_def)
    then show ?thesis using keep_frame [of p] by simp
  next
    case (Some h)
    let ?hid = "if elem_id (elements p ! h) \<noteq> [] then elem_id (elements p ! h)
                else ''section-heading-'' @ show_nat (fst ix)"
    let ?p1 = "update_element h (\<lambda>e. e\<lparr>elem_id := ?hid\<rparr>) p"
    from True Some have eq: "label_section ix p =
        update_element (snd ix) (setAttribute ''aria-labelledby'' ?hid) ?p1"
      by (simp add: label_section_def Let_def)
    show ?thesis
      unfolding eq
      by (rule twice_frame [OF update_element_frame update_element_frame])
  qed
qed

lemma setupAccessibility_frame: "\<exists>E. setupAccessibility p = p\<lparr>elements := E\<rparr>"
proof -
  let ?p1 = "case querySelector p (ByTag ''main'') of
                  Some main \<Rightarrow>
                    if falsy_attribute (getAttribute (elements p ! main) ''role'')
                    then update_element main (setAttribute ''role'' ''main'') p
                    else p
                | None \<Rightarrow> p"
  have 1: "\<exists>E. ?p1 = p\<lparr>elements := E\<rparr>"
    using keep_frame [of p] update_element_frame [of _ _ p]
    by (simp split: option.splits)
  have 2: "\<exists>E. fold label_section
      (zip [0 ..< length (querySelectorAll ?p1 (ByTag ''section''))]
           (querySelectorAll ?p1 (ByTag ''section''))) ?p1 = ?p1\<lparr>elements := E\<rparr>"
    by (rule frame_fold) (rule label_section_frame)
  have "\<exists>E. fold label_section
      (zip [0 ..< length (querySelectorAll ?p1 (ByTag ''section''))]
           (querySelectorAll ?p1 (ByTag ''section''))) ?p1 = p\<lparr>elements := E\<rparr>"
    by (rule twice_frame [OF 1 2])
  then show ?thesis
    by (simp add: setupAccessibility_def Let_def)
qed

lemma handleNavbarScroll_frame: "\<exists>E. handleNavbarScroll p = p\<lparr>elements := E\<rparr>"
  unfolding handleNavbarScroll_def Let_def
  using keep_frame [of p] update_element_frame [of _ _ p]
  by (simp split: option.splits)

lemma updateActiveNavLink_frame_ex: "\<exists>E. updateActiveNavLink p = p\<lparr>elements := E\<rparr>"
  using updateActiveNavLink_frame [of p] by blast

lemma handleWindowResize_frame:
  "\<exists>E. handleWindowResize p = p\<lparr>vh_property := Some (innerHeight p * 0.01), elements := E\<rparr>"
proof -
  from updateActiveNavLink_frame_ex [of "p\<lparr>vh_property := Some (innerHeight p * 0.01)\<rparr>"]
  show ?thesis by (simp add: handleWindowResize_def Let_def)
qed


section \<open>Lemmas on what the start-up steps depend on\<close>

lemma same_dom_refl: "same_dom p p"
  by (simp add: same_dom_def)

lemma same_dom_trans: "same_dom p q \<Longrightarrow> same_dom q r \<Longrightarrow> same_dom p r"
  by (simp add: same_dom_def)

lemma same_dom_frame:
  assumes "\<exists>E. p' = p\<lparr>elements := E\<rparr>" and "\<exists>E. q' = q\<lparr>elements := E\<rparr>"
    and "same_dom p q" and "elements p' = elements q'"
  shows "same_dom p' q'"
proof -
  from assms(1,2) obtain E1 E2 where "p' = p\<lparr>elements := E1\<rparr>" "q' = q\<lparr>elements := E2\<rparr>"
    by blast
  with assms(3,4) show ?thesis by (simp add: same_dom_def)
qed

lemma section_visible_same: "same_dom p q \<Longrightarrow> section_visible p s = section_visible q s"
  by (auto simp: same_dom_def section_visible_def Let_def getElementById_def isElementVisible_def
      windowHeight_def split: option.splits)

lemma activeSection_same: "same_dom p q \<Longrightarrow> activeSection p = activeSection q"
proof -
  assume "same_dom p q"
  then have "section_visible p = section_visible q"
    by (intro ext) (rule section_visible_same)
  then show ?thesis by (simp add: activeSection_def active_loop_find)
qed

lemma nav_links_same: "same_dom p q \<Longrightarrow> querySelectorAll_nav_links p = querySelectorAll_nav_links q"
  by (simp add: same_dom_def querySelectorAll_nav_links_def)

lemma updateActiveNavLink_same:
  assumes "same_dom p q"
  shows "same_dom (updateActiveNavLink p) (updateActiveNavLink q)"
proof (rule same_dom_frame [OF updateActiveNavLink_frame_ex updateActiveNavLink_frame_ex assms])
  from assms have "elements p = elements q" by (simp add: same_dom_def)
  then show "elements (updateActiveNavLink p) = elements (updateActiveNavLink q)"
    by (simp add: updateActiveNavLink_elements nav_links_same [OF assms]
        activeSection_same [OF assms])
qed

lemma handleNavbarScroll_same:
  assumes "same_dom p q"
  shows "same_dom (handleNavbarScroll p) (handleNavbarScroll q)"
proof (rule same_dom_frame [OF handleNavbarScroll_frame handleNavbarScroll_frame assms])
  from assms show "elements (handleNavbarScroll p) = elements (handleNavbarScroll q)"
    by (simp add: same_dom_def handleNavbarScroll_def Let_def querySelector_def update_element_def
        split: option.splits)
qed

lemma label_section_same:
  assumes "same_dom p q"
  shows "same_dom (label_section ix p) (label_section ix q)"
proof (rule same_dom_frame [OF label_section_frame label_section_frame assms])
  from assms show "elements (label_section ix p) = elements (label_section ix q)"
    by (simp add: same_dom_def label_section_def Let_def querySelector_within_def
        update_element_def split: option.splits)
qed

lemma fold_label_section_same:
  "same_dom p q \<Longrightarrow> same_dom (fold label_section xs p) (fold label_section xs q)"
  by (induction xs arbitrary: p q) (simp_all add: label_section_same)

lemma setupAccessibility_same:
  assumes "same_dom p q"
  shows "same_dom (setupAccessibility p) (setupAccessibility q)"
proof -
  let ?m = "\<lambda>p. case querySelector p (ByTag ''main'') of
                  Some main \<Rightarrow>
                    if falsy_attribute (getAttribute (elements p ! main) ''role'')
                    then update_element main (setAttribute ''role'' ''main'') p
                    else p
                | None \<Rightarrow> p"
  from assms have 1: "same_dom (?m p) (?m q)"
    by (simp add: same_dom_def querySelector_def update_element_def split: option.splits)
  then have "querySelectorAll (?m p) (ByTag ''section'') = querySelectorAll (?m q) (ByTag ''section'')"
    by (simp add: same_dom_def querySelectorAll_def)
  with fold_label_section_same [OF 1] show ?thesis
    by (simp add: setupAccessibility_def Let_def)
qed

lemma handleWindowResize_same:
  assumes "same_dom p q"
  shows "same_dom (handleWindowResize p) (handleWindowResize q)"
proof -
  from assms have "same_dom (p\<lparr>vh_property := Some (innerHeight p * 0.01)\<rparr>)
                            (q\<lparr>vh_property := Some (innerHeight q * 0.01)\<rparr>)"
    by (simp add: same_dom_def)
  from updateActiveNavLink_same [OF this] show ?thesis
    by (simp add: handleWindowResize_def Let_def)
qed

lemma same_dom_other:
  "same_dom p (emit x p)" "same_dom p (addEventListener t ev h p)" "same_dom p (setTimeout cb ms p)"
  by (simp_all add: same_dom_def emit_def addEventListener_def setTimeout_def)

section \<open>Lemmas on start-up\<close>

lemma querySelector_None: "querySelector p sel = None \<longleftrightarrow> (\<forall>e \<in> set (elements p). \<not> matches sel e)"
  by (simp add: querySelector_def first_index_None)

lemma validateCriticalElements_result:
  "fst (validateCriticalElements p) \<longleftrightarrow>
     (\<exists>e \<in> set (elements p). elem_id e = ''homepage'') \<and>
     (\<exists>e \<in> set (elements p). elem_id e = ''performance'') \<and>
     (\<exists>e \<in> set (elements p). elem_id e = ''report'') \<and>
     (\<exists>e \<in> set (elements p). tag e = ''nav'')"
  by (auto simp: validateCriticalElements_def Let_def criticalElements_def querySelector_None
      filter_empty_conv)

lemma validateCriticalElements_page:
  "snd (validateCriticalElements p) =
     (if fst (validateCriticalElements p) then p
      else emit (ConsoleWarn ''[Airbus Site] Missing critical elements:''
             [JString (join '', ''
                (map snd (filter (\<lambda>(sel, name). querySelector p sel = None) criticalElements)))]) p)"
  by (simp add: validateCriticalElements_def Let_def)

lemma initializeSite_shape:
  "\<exists>E. initializeSite p =
     p\<lparr>elements := E,
       vh_property := Some (innerHeight p * 0.01),
       listeners := listeners p @
         [(Window, ''scroll'', Throttled HandleNavbarScroll 16),
          (Window, ''scroll'', Throttled UpdateActiveNavLink 100),
          (Window, ''resize'', Debounced HandleWindowResize 250),
          (Document, ''click'', Direct HandleDocumentClick),
          (Document, ''keydown'', Direct HandleKeyboardNavigation),
          (Window, ''beforeunload'', Direct ResetScrollPosition),
          (Window, ''popstate'', Direct PopstateArrow)],
       timeouts := timeouts p @ (if hash p \<noteq> [] then [(ScrollToLocationHash, 300)] else []),
       effects := effects p @ [ConsoleLog ''[Airbus Site] Initializing...''] @
         (if fst (validateCriticalElements p) then []
          else [ConsoleWarn ''[Airbus Site] Missing critical elements:''
                  [JString (join '', ''
                     (map snd (filter (\<lambda>(sel, name). querySelector p sel = None)
                        criticalElements)))],
                ConsoleError
                  ''[Airbus Site] Critical elements missing, some features may not work'']) @
         [ConsoleLog ''[Airbus Site] Initialization complete'']\<rparr>"
proof -
  let ?pa = "emit (ConsoleLog ''[Airbus Site] Initializing...'') p"
  let ?ok = "fst (validateCriticalElements ?pa)"
  let ?pb = "snd (validateCriticalElements ?pa)"
  let ?pc = "if \<not> ?ok
               then emit (ConsoleError
                      ''[Airbus Site] Critical elements missing, some features may not work'') ?pb
               else ?pb"
  have ok: "fst (validateCriticalElements (p\<lparr>effects := e\<rparr>)) = fst (validateCriticalElements p)"
    for e by (simp add: validateCriticalElements_result)
  have q: "querySelector (p\<lparr>effects := e\<rparr>) = querySelector p" for e
    by (intro ext) (simp add: querySelector_def)
  obtain E1 where 1: "setupAccessibility ?pc = ?pc\<lparr>elements := E1\<rparr>"
    using setupAccessibility_frame by blast
  let ?pd = "?pc\<lparr>elements := E1\<rparr>"
  obtain E2 where 2: "handleWindowResize ?pd =
      ?pd\<lparr>vh_property := Some (innerHeight ?pd * 0.01), elements := E2\<rparr>"
    using handleWindowResize_frame by blast
  let ?pe = "?pd\<lparr>vh_property := Some (innerHeight ?pd * 0.01), elements := E2\<rparr>"
  let ?pi = "addEventListener Window ''popstate'' (Direct PopstateArrow)
      (addEventListener Window ''beforeunload'' (Direct ResetScrollPosition)
      (addEventListener Document ''keydown'' (Direct HandleKeyboardNavigation)
      (addEventListener Document ''click'' (Direct HandleDocumentClick)
      (addEventListener Window ''resize'' (Debounced HandleWindowResize 250)
      (addEventListener Window ''scroll'' (Throttled UpdateActiveNavLink 100)
      (addEventListener Window ''scroll'' (Throttled HandleNavbarScroll 16) ?pe))))))"
  obtain E3 where 3: "handleNavbarScroll ?pi = ?pi\<lparr>elements := E3\<rparr>"
    using handleNavbarScroll_frame by blast
  let ?pj = "?pi\<lparr>elements := E3\<rparr>"
  obtain E4 where 4: "updateActiveNavLink ?pj = ?pj\<lparr>elements := E4\<rparr>"
    using updateActiveNavLink_frame_ex by blast
  have "initializeSite p =
     p\<lparr>elements := E4,
       vh_property := Some (innerHeight p * 0.01),
       listeners := listeners p @
         [(Window, ''scroll'', Throttled HandleNavbarScroll 16),
          (Window, ''scroll'', Throttled UpdateActiveNavLink 100),
          (Window, ''resize'', Debounced HandleWindowResize 250),
          (Document, ''click'', Direct HandleDocumentClick),
          (Document, ''keydown'', Direct HandleKeyboardNavigation),
          (Window, ''beforeunload'', Direct ResetScrollPosition),
          (Window, ''popstate'', Direct PopstateArrow)],
       timeouts := timeouts p @ (if hash p \<noteq> [] then [(ScrollToLocationHash, 300)] else []),
       effects := effects p @ [ConsoleLog ''[Airbus Site] Initializing...''] @
         (if fst (validateCriticalElements p) then []
          else [ConsoleWarn ''[Airbus Site] Missing critical elements:''
                  [JString (join '', ''
                     (map snd (filter (\<lambda>(sel, name). querySelector p sel = None)
                        criticalElements)))],
                ConsoleError
                  ''[Airbus Site] Critical elements missing, some features may not work'']) @
         [ConsoleLog ''[Airbus Site] Initialization complete'']\<rparr>"
    unfolding initializeSite_def Let_def case_prod_unfold 1 2 3 4
    by (simp add: validateCriticalElements_page ok q emit_def addEventListener_def setTimeout_def
        case_prod_unfold)
  then show ?thesis by blast
qed


lemma same_dom_left:
  "same_dom p q \<Longrightarrow> same_dom (emit x p) q"
  "same_dom p q \<Longrightarrow> same_dom (addEventListener t ev h p) q"
  "same_dom p q \<Longrightarrow> same_dom (setTimeout cb ms p) q"
  "same_dom p q \<Longrightarrow> same_dom (snd (validateCriticalElements p)) q"
  "same_dom a q \<Longrightarrow> same_dom b q \<Longrightarrow> same_dom (if c then a else b) q"
  by (simp_all add: same_dom_def emit_def addEventListener_def setTimeout_def
      validateCriticalElements_page)

lemma initializeSite_dom:
  "same_dom (initializeSite p)
     (updateActiveNavLink (handleNavbarScroll (handleWindowResize (setupAccessibility p))))"
  unfolding initializeSite_def Let_def case_prod_unfold
  by (intro same_dom_left updateActiveNavLink_same handleNavbarScroll_same
      handleWindowResize_same setupAccessibility_same same_dom_refl)

section \<open>Start-up with missing elements\<close>

text \<open>
  C7. \<open>validateCriticalElements\<close> returns true exactly when the document holds an
  element with each of the ids \<open>homepage\<close>, \<open>performance\<close> and \<open>report\<close> and a \<open>nav\<close>
  element. When one is missing it does nothing but emit one console warning that names
  the missing ones. Whatever it returns, \<open>initializeSite\<close> goes on: the document ends
  up as the accessibility set-up, the resize handler, the navbar handler and the link
  highlighting leave it, the viewport property is set, all seven listeners are
  registered, the scroll to the hash is scheduled when there is a hash, and the last
  console line reports completion. The validation result shows only in the console.
\<close>

theorem initializeSite_nothing_fatal:
  "(fst (validateCriticalElements p) \<longleftrightarrow>
     (\<exists>e \<in> set (elements p). elem_id e = ''homepage'') \<and>
     (\<exists>e \<in> set (elements p). elem_id e = ''performance'') \<and>
     (\<exists>e \<in> set (elements p). elem_id e = ''report'') \<and>
     (\<exists>e \<in> set (elements p). tag e = ''nav'')) \<and>
   snd (validateCriticalElements p) =
     (if fst (validateCriticalElements p) then p
      else emit (ConsoleWarn ''[Airbus Site] Missing critical elements:''
             [JString (join '', ''
                (map snd (filter (\<lambda>(sel, name). querySelector p sel = None) criticalElements)))]) p) \<and>
   effects (initializeSite p) =
     effects p @ [ConsoleLog ''[Airbus Site] Initializing...''] @
     (if fst (validateCriticalElements p) then []
      else [ConsoleWarn ''[Airbus Site] Missing critical elements:''
              [JString (join '', ''
                 (map snd (filter (\<lambda>(sel, name). querySelector p sel = None) criticalElements)))],
            ConsoleError ''[Airbus Site] Critical elements missing, some features may not work'']) @
     [ConsoleLog ''[Airbus Site] Initialization complete''] \<and>
   elements (initializeSite p) =
     elements (updateActiveNavLink (handleNavbarScroll (handleWindowResize (setupAccessibility p)))) \<and>
   vh_property (initializeSite p) = Some (innerHeight p * 0.01) \<and>
   listeners (initializeSite p) =
     listeners p @
     [(Window, ''scroll'', Throttled HandleNavbarScroll 16),
      (Window, ''scroll'', Throttled UpdateActiveNavLink 100),
      (Window, ''resize'', Debounced HandleWindowResize 250),
      (Document, ''click'', Direct HandleDocumentClick),
      (Document, ''keydown'', Direct HandleKeyboardNavigation),
      (Window, ''beforeunload'', Direct ResetScrollPosition),
      (Window, ''popstate'', Direct PopstateArrow)] \<and>
   timeouts (initializeSite p) =
     timeouts p @ (if hash p \<noteq> [] then [(ScrollToLocationHash, 300)] else [])"
proof -
  from initializeSite_shape [of p] obtain E where
    shape: "initializeSite p =
     p\<lparr>elements := E,
       vh_property := Some (innerHeight p * 0.01),
       listeners := listeners p @
         [(Window, ''scroll'', Throttled HandleNavbarScroll 16),
          (Window, ''scroll'', Throttled UpdateActiveNavLink 100),
          (Window, ''resize'', Debounced HandleWindowResize 250),
          (Document, ''click'', Direct HandleDocumentClick),
          (Document, ''keydown'', Direct HandleKeyboardNavigation),
          (Window, ''beforeunload'', Direct ResetScrollPosition),
          (Window, ''popstate'', Direct PopstateArrow)],
       timeouts := timeouts p @ (if hash p \<noteq> [] then [(ScrollToLocationHash, 300)] else []),
       effects := effects p @ [ConsoleLog ''[Airbus Site] Initializing...''] @
         (if fst (validateCriticalElements p) then []
          else [ConsoleWarn ''[Airbus Site] Missing critical elements:''
                  [JString (join '', ''
                     (map snd (filter (\<lambda>(sel, name). querySelector p sel = None)
                        criticalElements)))],
                ConsoleError
                  ''[Airbus Site] Critical elements missing, some features may not work'']) @
         [ConsoleLog ''[Airbus Site] Initialization complete'']\<rparr>"
    by blast
  have dom: "elements (initializeSite p) =
     elements (updateActiveNavLink (handleNavbarScroll (handleWindowResize (setupAccessibility p))))"
    using initializeSite_dom [of p] by (simp add: same_dom_def)
  have fields: "effects (initializeSite p) =
     effects p @ [ConsoleLog ''[Airbus Site] Initializing...''] @
     (if fst (validateCriticalElements p) then []
      else [ConsoleWarn ''[Airbus Site] Missing critical elements:''
              [JString (join '', ''
                 (map snd (filter (\<lambda>(sel, name). querySelector p sel = None) criticalElements)))],
            ConsoleError ''[Airbus Site] Critical elements missing, some features may not work'']) @
     [ConsoleLog ''[Airbus Site] Initialization complete'']"
    "vh_property (initializeSite p) = Some (innerHeight p * 0.01)"
    "listeners (initializeSite p) =
     listeners p @
     [(Window, ''scroll'', Throttled HandleNavbarScroll 16),
      (Window, ''scroll'', Throttled UpdateActiveNavLink 100),
      (Window, ''resize'', Debounced HandleWindowResize 250),
      (Document, ''click'', Direct HandleDocumentClick),
      (Document, ''keydown'', Direct HandleKeyboardNavigation),
      (Window, ''beforeunload'', Direct ResetScrollPosition),
      (Window, ''popstate'', Direct PopstateArrow)]"
    "timeouts (initializeSite p) =
     timeouts p @ (if hash p \<noteq> [] then [(ScrollToLocationHash, 300)] else [])"
    unfolding shape by simp_all
  show ?thesis
    using validateCriticalElements_result [of p] validateCriticalElements_page [of p] dom fields
    by (intro conjI) blast+
qed

text \<open>A page with one section only: three critical elements are missing and start-up
  runs to its end.\<close>

lemma sample_bare_missing:
  "filter (\<lambda>(sel, name). querySelector sample_page_bare sel = None) criticalElements =
     [(ById ''performance'', ''Performance section''), (ById ''report'', ''Report section''),
      (ByTag ''nav'', ''Navigation bar'')]"
  by (simp add: criticalElements_def querySelector_def sample_page_bare_def mk_element_def)

lemma sample_bare_fields:
  "effects sample_page_bare = []" "listeners sample_page_bare = []"
  "innerHeight sample_page_bare = 1000" "hash sample_page_bare = []"
  "timeouts sample_page_bare = []"
  by (simp_all add: sample_page_bare_def sample_page_def)

theorem initializeSite_nothing_fatal_witness:
  "\<not> fst (validateCriticalElements sample_page_bare) \<and>
   effects (initializeSite sample_page_bare) =
     [ConsoleLog ''[Airbus Site] Initializing...'',
      ConsoleWarn ''[Airbus Site] Missing critical elements:''
        [JString ''Performance section, Report section, Navigation bar''],
      ConsoleError ''[Airbus Site] Critical elements missing, some features may not work'',
      ConsoleLog ''[Airbus Site] Initialization complete''] \<and>
   listeners (initializeSite sample_page_bare) =
     [(Window, ''scroll'', Throttled HandleNavbarScroll 16),
      (Window, ''scroll'', Throttled UpdateActiveNavLink 100),
      (Window, ''resize'', Debounced HandleWindowResize 250),
      (Document, ''click'', Direct HandleDocumentClick),
      (Document, ''keydown'', Direct HandleKeyboardNavigation),
      (Window, ''beforeunload'', Direct ResetScrollPosition),
      (Window, ''popstate'', Direct PopstateArrow)] \<and>
   vh_property (initializeSite sample_page_bare) = Some 10 \<and>
   timeouts (initializeSite sample_page_bare) = []"
proof -
  have nav: "\<not> (\<exists>e \<in> set (elements sample_page_bare). tag e = ''nav'')"
    by (simp add: sample_page_bare_def mk_element_def)
  from initializeSite_nothing_fatal [of sample_page_bare] nav show ?thesis
    by (simp add: sample_bare_missing sample_bare_fields)
qed

section \<open>Trailing-edge rate limiting\<close>






end
